theory Spec2Isabelle
  imports Complex_Main "HOL-Library.List_Lexorder" "HOL-Library.AList"
begin

text \<open>
  The build pipeline of the blog: the identifier normalizer \<open>slugify\<close>, the paginator,
  the category tree of the import script \<open>scripts/import-wp.js\<close>, the resolver of legacy
  permalinks of \<open>scripts/rewrite-wp-links.js\<close> and the post reconciler of the build script
  \<open>scripts/build-from-markdown.js\<close>, each as a functional model of the JavaScript, followed
  by the properties of each.
\<close>

section \<open>JavaScript strings\<close>

text \<open>
  A JavaScript string is a sequence of UTF-16 code units, and the regular expressions of
  the scripts (none carries the \<open>u\<close> flag) work on code units. A string is therefore
  modelled as the list of its code units, each a natural number below 65536.
  \<open>ascii\<close> turns an ASCII literal into such a list.
\<close>

type_synonym jsstring = "nat list"

definition ascii :: "string \<Rightarrow> jsstring" where
  "ascii s = map of_char s"

text \<open>The class \<open>\s\<close>, which is also what \<open>String.prototype.trim\<close> strips.\<close>

definition isWhiteSpace :: "nat \<Rightarrow> bool" where
  "isWhiteSpace c \<longleftrightarrow>
     (9 \<le> c \<and> c \<le> 13) \<or> c = 32 \<or> c = 160 \<or> c = 0x1680 \<or>
     (0x2000 \<le> c \<and> c \<le> 0x200A) \<or> c = 0x2028 \<or> c = 0x2029 \<or>
     c = 0x202F \<or> c = 0x205F \<or> c = 0x3000 \<or> c = 0xFEFF"

text \<open>The class \<open>\d\<close>.\<close>

definition isDigit :: "nat \<Rightarrow> bool" where
  "isDigit c \<longleftrightarrow> 48 \<le> c \<and> c \<le> 57"

text \<open>The class \<open>\w\<close>: ASCII letters, digits and the underscore.\<close>

definition isWordChar :: "nat \<Rightarrow> bool" where
  "isWordChar c \<longleftrightarrow>
     (65 \<le> c \<and> c \<le> 90) \<or> (97 \<le> c \<and> c \<le> 122) \<or> isDigit c \<or> c = 95"

definition isHyphen :: "nat \<Rightarrow> bool" where
  "isHyphen c \<longleftrightarrow> c = 45"

definition trim :: "jsstring \<Rightarrow> jsstring" where
  "trim s = rev (dropWhile isWhiteSpace (rev (dropWhile isWhiteSpace s)))"

text \<open>
  \<open>s.replace(/C+/g, r)\<close> for a character class \<open>C\<close>: every maximal run of characters of
  the class is replaced by \<open>r\<close>.
\<close>

function replace_runs :: "(nat \<Rightarrow> bool) \<Rightarrow> jsstring \<Rightarrow> jsstring \<Rightarrow> jsstring" where
  "replace_runs P r [] = []"
| "replace_runs P r (c # cs) =
     (if P c then r @ replace_runs P r (dropWhile P cs) else c # replace_runs P r cs)"
  by pat_completeness auto
termination
  by (relation "measure (\<lambda>(P, r, s). length s)")
     (auto simp: le_imp_less_Suc length_dropWhile_le)

section \<open>Identifier normalizer\<close>

text \<open>
  The character class of \<open>slugify\<close>, whose complement is deleted: \<open>\w\<close>, Hiragana
  (U+3040 to U+309F), Katakana (U+30A0 to U+30FF), CJK ideographs (U+4E00 to U+9FAF) and
  the hyphen.
\<close>

definition isSlugChar :: "nat \<Rightarrow> bool" where
  "isSlugChar c \<longleftrightarrow>
     isWordChar c \<or> (0x3040 \<le> c \<and> c \<le> 0x309F) \<or> (0x30A0 \<le> c \<and> c \<le> 0x30FF) \<or>
     (0x4E00 \<le> c \<and> c \<le> 0x9FAF) \<or> c = 45"

text \<open>
  \<^verbatim>\<open>
  function slugify(str) {
    return str.trim().replace(/\s+/g, '-')
      .replace(/[^\w(U+3040)-(U+309F)(U+30A0)-(U+30FF)(U+4E00)-(U+9FAF)-]/g, '')
      .replace(/-+/g, '-').slice(0, 80) || 'post';
  }\<close>
  The three copies of the function (build script, import script, writer server) agree on
  every string.
\<close>

definition slugify :: "jsstring \<Rightarrow> jsstring" where
  "slugify str =
     (let s = take 80 (replace_runs isHyphen [45]
                (filter isSlugChar (replace_runs isWhiteSpace [45] (trim str))))
      in if s = [] then ascii ''post'' else s)"

definition categorySlug :: "jsstring \<Rightarrow> jsstring" where
  "categorySlug name = (let s = slugify name in if s = [] then ascii ''category'' else s)"

text \<open>No two adjacent hyphens.\<close>

fun single_hyphens :: "jsstring \<Rightarrow> bool" where
  "single_hyphens (a # b # s) \<longleftrightarrow> \<not> (isHyphen a \<and> isHyphen b) \<and> single_hyphens (b # s)"
| "single_hyphens _ \<longleftrightarrow> True"

section \<open>Paginator\<close>

definition PER_PAGE :: nat where
  "PER_PAGE = 10"

text \<open>
  The page count of the main listing, in the build script and in the import script alike:
  \<^verbatim>\<open>const totalPages = Math.ceil(postsData.length / PER_PAGE);\<close>
\<close>

definition totalPages :: "nat \<Rightarrow> int" where
  "totalPages n = \<lceil>real n / real PER_PAGE\<rceil>"

text \<open>
  The page count of a category listing (import script, three places):
  \<^verbatim>\<open>const totalCatPages = Math.max(1, Math.ceil(catPosts.length / PER_PAGE));\<close>
\<close>

definition totalCatPages :: "nat \<Rightarrow> int" where
  "totalCatPages n = max 1 \<lceil>real n / real PER_PAGE\<rceil>"

text \<open>An entry of the page-number control: a page number or the ellipsis marker.\<close>

datatype page_item = Page int | Ellipsis

text \<open>
  \<^verbatim>\<open>
  function getPageNumbers(current, total) {
    if (total <= 1) return [1];
    const windowSize = 2;
    const left = Math.max(2, current - windowSize);
    const right = Math.min(total - 1, current + windowSize);
    const out = [1];
    if (left > 2) out.push('(U+2026)');
    for (let i = left; i <= right; i++) out.push(i);
    if (right < total - 1) out.push('(U+2026)');
    if (total > 1) out.push(total);
    return out;
  }\<close>
\<close>

definition getPageNumbers :: "int \<Rightarrow> int \<Rightarrow> page_item list" where
  "getPageNumbers current total' =
     (if total' \<le> 1 then [Page 1]
      else let windowSize = 2;
               left = max 2 (current - windowSize);
               right = min (total' - 1) (current + windowSize)
           in [Page 1] @ (if left > 2 then [Ellipsis] else []) @ map Page [left..right] @
              (if right < total' - 1 then [Ellipsis] else []) @
              (if total' > 1 then [Page total'] else []))"

text \<open>
  What a well-formed window looks like: page numbers that follow each other directly are
  consecutive, and an ellipsis stands alone between two page numbers that are not.
\<close>

fun gaps_marked :: "page_item list \<Rightarrow> bool" where
  "gaps_marked (Page a # Page b # r) \<longleftrightarrow> b = a + 1 \<and> gaps_marked (Page b # r)"
| "gaps_marked (Page a # Ellipsis # Page b # r) \<longleftrightarrow> a + 1 < b \<and> gaps_marked (Page b # r)"
| "gaps_marked [Page a] \<longleftrightarrow> True"
| "gaps_marked _ \<longleftrightarrow> False"

section \<open>Category tree builder\<close>

text \<open>
  The XML parser hands the script a JavaScript value for every child element of a
  \<open>wp:category\<close> element: a string; a number or a boolean where the text of the element
  reads as one; an object, with the text under the key \<open>#text\<close>, where the element carries
  attributes; and nothing (\<open>undefined\<close>) where the element is missing. A number is given
  by its rendering \<open>String(n)\<close>, which determines it up to the sign of zero; it is falsy
  exactly when the rendering is \<open>0\<close> or \<open>NaN\<close>.
\<close>

datatype xml_text = NoText | TextString jsstring | TextNumber jsstring | TextBoolean bool

datatype xml_value =
  XNull | XString jsstring | XNumber jsstring | XBoolean bool | XObject xml_text

text \<open>
  \<^verbatim>\<open>
  function textOf(node) {
    if (node == null) return '';
    if (typeof node === 'string') return node.trim();
    if (node['#text']) return String(node['#text']).trim();
    return '';
  }\<close>
  A number and a boolean have no property \<open>#text\<close>, so their text is empty.
\<close>

fun textOf :: "xml_value \<Rightarrow> jsstring" where
  "textOf XNull = []"
| "textOf (XString s) = trim s"
| "textOf (XNumber n) = []"
| "textOf (XBoolean b) = []"
| "textOf (XObject NoText) = []"
| "textOf (XObject (TextString s)) = (if s \<noteq> [] then trim s else [])"
| "textOf (XObject (TextNumber n)) =
     (if n \<noteq> ascii ''0'' \<and> n \<noteq> ascii ''NaN'' then trim n else [])"
| "textOf (XObject (TextBoolean b)) = (if b then trim (ascii ''true'') else [])"

text \<open>
  The import script reads the flat category list of the export: for each
  \<open>wp:category\<close> element the values of its nicename, display name and parent nicename.
\<close>

record wp_category =
  wp_category_nicename :: xml_value
  wp_cat_name :: xml_value
  wp_category_parent :: xml_value

record category_info =
  name :: jsstring
  parentNicename :: "jsstring option"

text \<open>
  A JavaScript \<open>Map\<close> keeps its keys in insertion order, and \<open>set\<close> on a key that is
  present replaces the value in place: an association list with \<open>AList.update\<close>.
\<close>

type_synonym category_map = "(jsstring \<times> category_info) list"

text \<open>
  \<^verbatim>\<open>
  const catByNicename = new Map();
  wpCategories.forEach((c) => {
    const nicename = textOf(c['wp:category_nicename']).trim();
    const name = textOf(c['wp:cat_name']).trim();
    const parent = textOf(c['wp:category_parent']).trim();
    if (name) catByNicename.set(nicename, { name, parentNicename: parent || null });
  });\<close>
\<close>

definition catByNicename :: "wp_category list \<Rightarrow> category_map" where
  "catByNicename wpCategories =
     foldl (\<lambda>m c.
        let nicename = trim (textOf (wp_category_nicename c));
            name = trim (textOf (wp_cat_name c));
            parent = trim (textOf (wp_category_parent c))
        in if name \<noteq> []
           then AList.update nicename
                  \<lparr>name = name, parentNicename = (if parent = [] then None else Some parent)\<rparr> m
           else m)
       [] wpCategories"

text \<open>
  \<^verbatim>\<open>
  const topLevelNicenames = [...catByNicename.entries()]
    .filter(([, v]) => !v.parentNicename)
    .map(([nicename]) => nicename);\<close>
\<close>

definition topLevelNicenames :: "category_map \<Rightarrow> jsstring list" where
  "topLevelNicenames cat = map fst (filter (\<lambda>(nicename, v). parentNicename v = None) cat)"

text \<open>
  \<open>xs.forEach(f)\<close> where \<open>f\<close> updates a state and may itself not return: the state is
  threaded through, and the loop returns only if every call does.
\<close>

primrec forEach_opt :: "('a \<Rightarrow> 's \<Rightarrow> 's option) \<Rightarrow> 'a list \<Rightarrow> 's \<Rightarrow> 's option" where
  "forEach_opt f [] s = Some s"
| "forEach_opt f (x # xs) s = Option.bind (f x s) (forEach_opt f xs)"

lemma forEach_opt_mono [partial_function_mono]:
  assumes "\<And>x s. mono_option (\<lambda>f. B x s f)"
  shows "mono_option (\<lambda>f. forEach_opt (\<lambda>x s. B x s f) xs s0)"
proof (induction xs arbitrary: s0)
  case Nil
  show ?case by (rule monotoneI) (simp add: flat_ord_def)
next
  case (Cons x xs)
  show ?case
    unfolding forEach_opt.simps
    by (rule bind_mono) (rule assms, rule Cons.IH)
qed

text \<open>\<open>Set.prototype.add\<close>: a set of names in insertion order.\<close>

definition set_add :: "'a list \<Rightarrow> 'a \<Rightarrow> 'a list" where
  "set_add s x = (if x \<in> set s then s else s @ [x])"

text \<open>
  \<^verbatim>\<open>
  function getDescendantNames(nicename) {
    const names = new Set();
    const add = (n) => {
      const info = catByNicename.get(n);
      if (!info) return;
      names.add(info.name);
      [...catByNicename.entries()]
        .filter(([, v]) => v.parentNicename === n)
        .forEach(([child]) => add(child));
    };
    add(nicename);
    return names;
  }\<close>
  The closure \<open>add\<close> recurses into the children of \<open>n\<close> without a test whether \<open>n\<close> was
  seen before, so it need not return: the result \<open>None\<close> stands for a recursion that
  never ends. \<open>child_nicenames\<close> is the filtered entry list of the closure.
\<close>

definition child_nicenames :: "category_map \<Rightarrow> jsstring \<Rightarrow> jsstring list" where
  "child_nicenames cat n = map fst (filter (\<lambda>(child, v). parentNicename v = Some n) cat)"

partial_function (option) add ::
  "category_map \<Rightarrow> jsstring \<Rightarrow> jsstring list \<Rightarrow> jsstring list option" where
  "add cat n names =
     (case map_of cat n of
        None \<Rightarrow> Some names
      | Some info \<Rightarrow>
          forEach_opt (\<lambda>child names'. add cat child names') (child_nicenames cat n)
            (set_add names (name info)))"

declare add.simps [code]

definition getDescendantNames :: "category_map \<Rightarrow> jsstring \<Rightarrow> jsstring list option" where
  "getDescendantNames cat nicename = add cat nicename []"

text \<open>The parent relation of a category map: the pairs of a node and its declared parent.\<close>

definition parent_rel :: "category_map \<Rightarrow> (jsstring \<times> jsstring) set" where
  "parent_rel cat = {(child, p). \<exists>v. (child, v) \<in> set cat \<and> parentNicename v = Some p}"

text \<open>
  The part of the parent relation at and below a node \<open>n\<close>: the pairs whose parent is
  \<open>n\<close> or a descendant of \<open>n\<close>.
\<close>

definition below :: "category_map \<Rightarrow> jsstring \<Rightarrow> (jsstring \<times> jsstring) set" where
  "below cat n = {(child, p) \<in> parent_rel cat. (p, n) \<in> (parent_rel cat)\<^sup>*}"

text \<open>
  \<^verbatim>\<open>
  const topLevelCats = topLevelNicenames
    .map((n) => catByNicename.get(n).name)
    .filter((name) => name && name !== 'Uncategorized')
    .sort();\<close>
  The default \<open>sort\<close> orders strings by their code units, which is the lexicographic
  order of the lists. Every nicename of \<open>topLevelNicenames\<close> is a key of the map, so the
  \<open>None\<close> case of the lookup is not reached.
\<close>

definition topLevelCats :: "category_map \<Rightarrow> jsstring list" where
  "topLevelCats cat =
     sort (filter (\<lambda>name. name \<noteq> [] \<and> name \<noteq> ascii ''Uncategorized'')
       (concat (map (\<lambda>n. case map_of cat n of None \<Rightarrow> [] | Some v \<Rightarrow> [name v])
          (topLevelNicenames cat))))"

text \<open>
  \<^verbatim>\<open>
  const topLevelDescendants = new Map();
  topLevelCats.forEach((name) => {
    const nicename = [...catByNicename.entries()].find(([, v]) => v.name === name)?.[0];
    if (nicename) topLevelDescendants.set(name, getDescendantNames(nicename));
  });\<close>
  The nicename is that of the first entry with the display name, which need not be the
  top-level entry the name came from.
\<close>

definition topLevelDescendants ::
  "category_map \<Rightarrow> (jsstring \<times> jsstring list) list option" where
  "topLevelDescendants cat =
     forEach_opt (\<lambda>name' acc.
         case find (\<lambda>(nicename, v). name v = name') cat of
           None \<Rightarrow> Some acc
         | Some (nicename, v) \<Rightarrow>
             if nicename = [] then Some acc
             else map_option (\<lambda>names. AList.update name' names acc)
                    (getDescendantNames cat nicename))
       (topLevelCats cat) []"

text \<open>
  \<^verbatim>\<open>
  const nameToNicename = new Map();
  for (const [nicename, v] of catByNicename) if (v.name) nameToNicename.set(v.name, nicename);\<close>
\<close>

definition nameToNicename :: "category_map \<Rightarrow> (jsstring \<times> jsstring) list" where
  "nameToNicename cat =
     foldl (\<lambda>m (nicename, v). if name v \<noteq> [] then AList.update (name v) nicename m else m) [] cat"

text \<open>
  \<^verbatim>\<open>
  function getDirectChildren(parentNicename) {
    return [...catByNicename.entries()]
      .filter(([, v]) => v.parentNicename === parentNicename)
      .map(([nicename, v]) => ({ nicename, name: v.name }));
  }\<close>
\<close>

definition getDirectChildren :: "category_map \<Rightarrow> jsstring \<Rightarrow> (jsstring \<times> jsstring) list" where
  "getDirectChildren cat parentNicename' =
     map (\<lambda>(nicename, v). (nicename, name v))
       (filter (\<lambda>(nicename, v). parentNicename v = Some parentNicename') cat)"

text \<open>\<open>Array.prototype.join\<close>.\<close>

fun join :: "jsstring \<Rightarrow> jsstring list \<Rightarrow> jsstring" where
  "join sep [] = []"
| "join sep [x] = x"
| "join sep (x # y # r) = x @ sep @ join sep (y # r)"

record category_with_slug =
  cat_nicename :: jsstring
  cat_name :: jsstring
  cat_slug :: jsstring

text \<open>
  \<^verbatim>\<open>
  // All categories (and subcategories) with path-based slugs for unique URLs
  const allCategoriesWithSlug = [];
  function addCategoryWithPath(nicename, pathNames) {
    const info = catByNicename.get(nicename);
    if (!info || !info.name) return;
    const path = pathNames.concat(info.name);
    const slug = path.map(categorySlug).join('-');
    allCategoriesWithSlug.push({ nicename, name: info.name, slug });
    getDirectChildren(nicename).forEach((c) => addCategoryWithPath(c.nicename, path));
  }
  topLevelCats.forEach((name) => {
    const nicename = nameToNicename.get(name);
    if (nicename) addCategoryWithPath(nicename, []);
  });\<close>
  The array \<open>allCategoriesWithSlug\<close> is the state that the recursion extends.
\<close>

partial_function (option) addCategoryWithPath ::
  "category_map \<Rightarrow> jsstring \<Rightarrow> jsstring list \<Rightarrow> category_with_slug list \<Rightarrow>
   category_with_slug list option" where
  "addCategoryWithPath cat nicename pathNames allCategoriesWithSlug =
     (case map_of cat nicename of
        None \<Rightarrow> Some allCategoriesWithSlug
      | Some info \<Rightarrow>
          if name info = [] then Some allCategoriesWithSlug
          else let path = pathNames @ [name info];
                   slug = join [45] (map categorySlug path)
               in forEach_opt (\<lambda>c acc. addCategoryWithPath cat (fst c) path acc)
                    (getDirectChildren cat nicename)
                    (allCategoriesWithSlug @
                       [\<lparr>cat_nicename = nicename, cat_name = name info, cat_slug = slug\<rparr>]))"

declare addCategoryWithPath.simps [code]

definition allCategoriesWithSlug :: "category_map \<Rightarrow> category_with_slug list option" where
  "allCategoriesWithSlug cat =
     forEach_opt (\<lambda>name acc.
         case map_of (nameToNicename cat) name of
           None \<Rightarrow> Some acc
         | Some nicename \<Rightarrow>
             if nicename = [] then Some acc else addCategoryWithPath cat nicename [] acc)
       (topLevelCats cat) []"

text \<open>
  The root set in the words of the specification, for comparison with
  \<open>topLevelNicenames\<close>: the nodes with no parent or whose parent is absent from the set.
\<close>

definition spec_roots :: "category_map \<Rightarrow> jsstring list" where
  "spec_roots cat =
     map fst (filter (\<lambda>(nicename, v).
        case parentNicename v of None \<Rightarrow> True | Some p \<Rightarrow> map_of cat p = None) cat)"

text \<open>
  The value that the loop of \<open>catByNicename\<close> stores for an element,
  \<^verbatim>\<open>{ name, parentNicename: parent || null }\<close>, and the element of the input that
  declares the node \<open>n\<close>: the last \<open>wp:category\<close> element with a display name whose
  nicename reads \<open>n\<close> (a later \<open>set\<close> on the same key replaces the value of an earlier
  one). The properties of the root set are stated against the fields of this element.
\<close>

definition category_info_of :: "wp_category \<Rightarrow> category_info" where
  "category_info_of c =
     \<lparr>name = trim (textOf (wp_cat_name c)),
      parentNicename = (if trim (textOf (wp_category_parent c)) = [] then None
                        else Some (trim (textOf (wp_category_parent c))))\<rparr>"

definition declaring_element :: "wp_category list \<Rightarrow> jsstring \<Rightarrow> wp_category option" where
  "declaring_element wpCategories n =
     find (\<lambda>c. trim (textOf (wp_category_nicename c)) = n)
       (rev (filter (\<lambda>c. trim (textOf (wp_cat_name c)) \<noteq> []) wpCategories))"

subsection \<open>Sample category sets\<close>

text \<open>
  Two categories \<open>news-old\<close> and \<open>archive\<close> that name each other as parent, the first
  with the display name \<open>News\<close>, and a root \<open>news\<close> with the same display name and the
  child \<open>sports\<close>.
\<close>

definition looping_categories :: "wp_category list" where
  "looping_categories =
     [\<lparr>wp_category_nicename = XString (ascii ''news-old''), wp_cat_name = XString (ascii ''News''),
       wp_category_parent = XString (ascii ''archive'')\<rparr>,
      \<lparr>wp_category_nicename = XString (ascii ''archive''), wp_cat_name = XString (ascii ''Archive''),
       wp_category_parent = XString (ascii ''news-old'')\<rparr>,
      \<lparr>wp_category_nicename = XString (ascii ''news''), wp_cat_name = XString (ascii ''News''),
       wp_category_parent = XString []\<rparr>,
      \<lparr>wp_category_nicename = XString (ascii ''sports''), wp_cat_name = XString (ascii ''Sports''),
       wp_category_parent = XString (ascii ''news'')\<rparr>]"

text \<open>A root \<open>Travel-Brazil\<close> beside a root \<open>Travel\<close> with the child \<open>Brazil\<close>.\<close>

definition shared_path_categories :: "wp_category list" where
  "shared_path_categories =
     [\<lparr>wp_category_nicename = XString (ascii ''travel-brazil''), wp_cat_name = XString (ascii ''Travel-Brazil''),
       wp_category_parent = XString []\<rparr>,
      \<lparr>wp_category_nicename = XString (ascii ''travel''), wp_cat_name = XString (ascii ''Travel''),
       wp_category_parent = XString []\<rparr>,
      \<lparr>wp_category_nicename = XString (ascii ''brazil''), wp_cat_name = XString (ascii ''Brazil''),
       wp_category_parent = XString (ascii ''travel'')\<rparr>]"

text \<open>A single category whose declared parent \<open>japan\<close> is not in the list.\<close>

definition dangling_categories :: "wp_category list" where
  "dangling_categories =
     [\<lparr>wp_category_nicename = XString (ascii ''osaka''), wp_cat_name = XString (ascii ''Osaka''),
       wp_category_parent = XString (ascii ''japan'')\<rparr>]"

section \<open>Legacy identifier resolver\<close>

text \<open>\<open>s.split(sep)\<close> for a one-character separator.\<close>

fun split :: "nat \<Rightarrow> jsstring \<Rightarrow> jsstring list" where
  "split sep [] = [[]]"
| "split sep (c # cs) =
     (if c = sep then [] # split sep cs
      else (case split sep cs of [] \<Rightarrow> [[c]] | p # ps \<Rightarrow> (c # p) # ps))"

subsection \<open>The built-in \<open>decodeURIComponent\<close>\<close>

text \<open>
  \<open>decodeURIComponent\<close> replaces every escape \<open>%XX\<close> by the character it encodes in UTF-8
  and throws a \<open>URIError\<close>, here \<open>None\<close>, on an escape that is cut short, is not
  hexadecimal or is not valid UTF-8. A code point beyond the basic plane becomes a
  surrogate pair.
\<close>

definition hexDigit :: "nat \<Rightarrow> nat option" where
  "hexDigit c =
     (if 48 \<le> c \<and> c \<le> 57 then Some (c - 48)
      else if 65 \<le> c \<and> c \<le> 70 then Some (c - 55)
      else if 97 \<le> c \<and> c \<le> 102 then Some (c - 87)
      else None)"

fun take_octet :: "jsstring \<Rightarrow> (nat \<times> jsstring) option" where
  "take_octet (p # a # b # rest) =
     (if p = 37 then
        (case (hexDigit a, hexDigit b) of
           (Some x, Some y) \<Rightarrow> Some (16 * x + y, rest)
         | _ \<Rightarrow> None)
      else None)"
| "take_octet _ = None"

fun take_octets :: "nat \<Rightarrow> jsstring \<Rightarrow> (nat list \<times> jsstring) option" where
  "take_octets 0 s = Some ([], s)"
| "take_octets (Suc n) s =
     (case take_octet s of
        None \<Rightarrow> None
      | Some (b, rest) \<Rightarrow>
          (case take_octets n rest of
             None \<Rightarrow> None
           | Some (bs, rest') \<Rightarrow> Some (b # bs, rest')))"

definition leading_ones :: "nat \<Rightarrow> nat" where
  "leading_ones b =
     (if b < 0x80 then 0 else if b < 0xC0 then 1 else if b < 0xE0 then 2
      else if b < 0xF0 then 3 else if b < 0xF8 then 4 else 5)"

definition continuation :: "nat \<Rightarrow> bool" where
  "continuation b \<longleftrightarrow> 0x80 \<le> b \<and> b < 0xC0"

fun utf8_decode :: "nat list \<Rightarrow> nat option" where
  "utf8_decode [b0, b1] =
     (let cp = (b0 - 0xC0) * 64 + (b1 - 0x80)
      in if continuation b1 \<and> 0x80 \<le> cp then Some cp else None)"
| "utf8_decode [b0, b1, b2] =
     (let cp = (b0 - 0xE0) * 4096 + (b1 - 0x80) * 64 + (b2 - 0x80)
      in if continuation b1 \<and> continuation b2 \<and> 0x800 \<le> cp \<and> \<not> (0xD800 \<le> cp \<and> cp \<le> 0xDFFF)
         then Some cp else None)"
| "utf8_decode [b0, b1, b2, b3] =
     (let cp = (b0 - 0xF0) * 262144 + (b1 - 0x80) * 4096 + (b2 - 0x80) * 64 + (b3 - 0x80)
      in if continuation b1 \<and> continuation b2 \<and> continuation b3 \<and>
            0x10000 \<le> cp \<and> cp \<le> 0x10FFFF
         then Some cp else None)"
| "utf8_decode _ = None"

definition utf16_encode :: "nat \<Rightarrow> jsstring" where
  "utf16_encode cp =
     (if cp < 0x10000 then [cp]
      else [0xD800 + (cp - 0x10000) div 1024, 0xDC00 + (cp - 0x10000) mod 1024])"

lemma take_octet_length: "take_octet s = Some (b, rest) \<Longrightarrow> length rest < length s"
  by (induction s rule: take_octet.induct) (auto split: if_splits option.splits)

lemma take_octets_length: "take_octets n s = Some (bs, rest) \<Longrightarrow> length rest \<le> length s"
proof (induction n arbitrary: s bs rest)
  case 0
  then show ?case by simp
next
  case (Suc n)
  then show ?case
    by (fastforce split: option.splits dest: take_octet_length)
qed

function decodeURIComponent :: "jsstring \<Rightarrow> jsstring option" where
  "decodeURIComponent [] = Some []"
| "decodeURIComponent (c # cs) =
     (if c \<noteq> 37 then map_option ((#) c) (decodeURIComponent cs)
      else
        (case take_octet (c # cs) of
           None \<Rightarrow> None
         | Some (b, rest) \<Rightarrow>
             let n = leading_ones b in
             if n = 0 then map_option ((#) b) (decodeURIComponent rest)
             else if n = 1 \<or> n > 4 then None
             else
               (case take_octets (n - 1) rest of
                  None \<Rightarrow> None
                | Some (bs, rest') \<Rightarrow>
                    (case utf8_decode (b # bs) of
                       None \<Rightarrow> None
                     | Some cp \<Rightarrow>
                         map_option ((@) (utf16_encode cp)) (decodeURIComponent rest')))))"
  by pat_completeness auto
termination
proof (relation "measure length", goal_cases)
  case 1
  show ?case by simp
next
  case (2 c cs)
  then show ?case by simp
next
  case (3 c cs x2 x y xa)
  then show ?case using take_octet_length [of "c # cs"] by auto
next
  case (4 c cs x2 x y xa x2a xb ya x2b)
  then show ?case
    using take_octet_length [of "c # cs"] take_octets_length [of "xa - 1" y] by fastforce
qed

subsection \<open>Extraction of the candidate slug\<close>

text \<open>\<open>s.replace(/a/g, b)\<close> for single characters \<open>a\<close> and \<open>b\<close>.\<close>

definition replace_char :: "nat \<Rightarrow> nat \<Rightarrow> jsstring \<Rightarrow> jsstring" where
  "replace_char a b s = map (\<lambda>c. if c = a then b else c) s"

text \<open>
  \<^verbatim>\<open>
  function postSlugFromWpPath(wpPath) {
    const segments = wpPath.split('/').filter(Boolean);
    if (segments.length < 3) return null;
    const [y, m, second] = segments;
    if (y.length !== 4 || m.length !== 2) return null;
    // Second might be DD (2 digits) or the slug
    const postSegmentIndex = second.length === 2 && /^\d{2}$/.test(second) ? 3 : 2;
    const raw = segments[postSegmentIndex];
    if (!raw) return null;
    try {
      const decoded = decodeURIComponent(raw);
      return decoded.replace(/(U+FF5E)/g, '-').replace(/\s+/g, '-').trim();
    } catch {
      return raw.replace(/(U+FF5E)/g, '-').trim();
    }
  }\<close>
  A segment is never empty, so \<open>!raw\<close> holds exactly when the index is out of range.
\<close>

definition postSlugFromWpPath :: "jsstring \<Rightarrow> jsstring option" where
  "postSlugFromWpPath wpPath =
     (let segments = filter (\<lambda>s. s \<noteq> []) (split 47 wpPath) in
      if length segments < 3 then None
      else
        let y = segments ! 0; m = segments ! 1; second = segments ! 2 in
        if length y \<noteq> 4 \<or> length m \<noteq> 2 then None
        else
          let postSegmentIndex =
                (if length second = 2 \<and> list_all isDigit second then 3 else 2 :: nat) in
          if postSegmentIndex \<ge> length segments then None
          else
            let raw = segments ! postSegmentIndex in
            (case decodeURIComponent raw of
               Some decoded \<Rightarrow>
                 Some (trim (replace_runs isWhiteSpace [45] (replace_char 0xFF5E 45 decoded)))
             | None \<Rightarrow> Some (trim (replace_char 0xFF5E 45 raw))))"

subsection \<open>The matching cascade\<close>

text \<open>
  \<^verbatim>\<open>
  function normalizeForMatch(s) {
    return s.replace(/(U+FF5E)/g, '-').replace(/(U+301C)/g, '-').replace(/(U+3001)/g, '-')
      .replace(/[(U+FF01)-(U+FF5E)]/g, (c) => String.fromCharCode(c.codePointAt(0) - 0xfee0))
      .replace(/[(U+FF10)-(U+FF19)]/g, (c) => String.fromCharCode(c.codePointAt(0) - 0xfee0))
      .replace(/(U+2460)/g, '1').replace(/(U+2461)/g, '2').replace(/(U+2462)/g, '3')
      .replace(/(U+2463)/g, '4').replace(/(U+2464)/g, '5')
      .replace(/\s+/g, '-').replace(/-+/g, '-').replace(/^\s+|\s+$/g, '');
  }\<close>
\<close>

definition normalizeForMatch :: "jsstring \<Rightarrow> jsstring" where
  "normalizeForMatch s =
     trim (replace_runs isHyphen [45] (replace_runs isWhiteSpace [45]
       (replace_char 0x2464 53 (replace_char 0x2463 52 (replace_char 0x2462 51
       (replace_char 0x2461 50 (replace_char 0x2460 49
       (map (\<lambda>c. if 0xFF10 \<le> c \<and> c \<le> 0xFF19 then c - 0xFEE0 else c)
       (map (\<lambda>c. if 0xFF01 \<le> c \<and> c \<le> 0xFF5E then c - 0xFEE0 else c)
       (replace_char 0x3001 45 (replace_char 0x301C 45 (replace_char 0xFF5E 45 s))))))))))))"

text \<open>\<open>String.prototype.startsWith\<close> and \<open>String.prototype.includes\<close>.\<close>

definition startsWith :: "jsstring \<Rightarrow> jsstring \<Rightarrow> bool" where
  "startsWith s p \<longleftrightarrow> take (length p) s = p"

definition str_includes :: "jsstring \<Rightarrow> jsstring \<Rightarrow> bool" where
  "str_includes s t \<longleftrightarrow> list_ex (\<lambda>i. take (length t) (drop i s) = t) [0..<Suc (length s)]"

text \<open>
  \<^verbatim>\<open>
  function findStaticSlug(wpSlug, staticSlugs) {
    if (!wpSlug) return null;
    if (staticSlugs.has(wpSlug)) return wpSlug;
    const n = normalizeForMatch(wpSlug);
    for (const slug of staticSlugs) {
      if (normalizeForMatch(slug) === n) return slug;
    }
    for (const slug of staticSlugs) {
      const sn = normalizeForMatch(slug);
      if (sn.startsWith(n) || n.startsWith(sn)) return slug;
    }
    if (wpSlug.length >= 8) {
      for (const slug of staticSlugs) {
        if (slug.includes(wpSlug) || wpSlug.includes(slug)) return slug;
        if (normalizeForMatch(slug).includes(n) || n.includes(normalizeForMatch(slug))) return slug;
      }
    }
    const nNoDigits = n.replace(/\d+/g, '');
    for (const slug of staticSlugs) {
      const sn = normalizeForMatch(slug).replace(/\d+/g, '');
      if (sn === nNoDigits || sn.startsWith(nNoDigits) || nNoDigits.startsWith(sn)) return slug;
    }
    const nClean = nNoDigits.replace(/\?+/g, '').replace(/!+/g, '').replace(/-+/g, '-');
    for (const slug of staticSlugs) {
      const sn = normalizeForMatch(slug).replace(/\d+/g, '').replace(/\?+/g, '')
        .replace(/!+/g, '').replace(/-+/g, '-');
      if (sn === nClean || sn.startsWith(nClean) || nClean.startsWith(sn)) return slug;
    }
    return null;
  }\<close>
  The set \<open>staticSlugs\<close> is iterated in insertion order: a list. Each of the six
  \<open>return slug\<close> statements belongs to one strategy of the cascade;
  \<open>findStaticSlug_via\<close> returns the slug together with the strategy whose \<open>return\<close> was
  taken, and \<open>findStaticSlug\<close> is its slug. A loop that returns the first slug with a
  property is \<open>find\<close>.
\<close>

datatype strategy =
  Exact | ScriptNormalized | Prefix | Substring | DigitInsensitive | PunctuationInsensitive

definition first_match :: "strategy \<Rightarrow> (jsstring \<Rightarrow> bool) \<Rightarrow> jsstring list \<Rightarrow> (strategy \<times> jsstring) option" where
  "first_match tag P staticSlugs = map_option (Pair tag) (find P staticSlugs)"

definition or_else :: "'a option \<Rightarrow> 'a option \<Rightarrow> 'a option" where
  "or_else a b = (case a of Some x \<Rightarrow> Some x | None \<Rightarrow> b)"

definition findStaticSlug_via ::
  "jsstring option \<Rightarrow> jsstring list \<Rightarrow> (strategy \<times> jsstring) option" where
  "findStaticSlug_via wpSlug' staticSlugs =
     (case wpSlug' of
        None \<Rightarrow> None
      | Some wpSlug \<Rightarrow>
          if wpSlug = [] then None
          else if wpSlug \<in> set staticSlugs then Some (Exact, wpSlug)
          else
            let n = normalizeForMatch wpSlug;
                nNoDigits = filter (\<lambda>c. \<not> isDigit c) n;
                nClean = replace_runs isHyphen [45]
                           (filter (\<lambda>c. c \<noteq> 33) (filter (\<lambda>c. c \<noteq> 63) nNoDigits))
            in
            or_else (first_match ScriptNormalized (\<lambda>slug. normalizeForMatch slug = n) staticSlugs)
           (or_else (first_match Prefix
                       (\<lambda>slug. let sn = normalizeForMatch slug
                               in startsWith sn n \<or> startsWith n sn) staticSlugs)
           (or_else (if length wpSlug \<ge> 8
                     then first_match Substring
                            (\<lambda>slug. (str_includes slug wpSlug \<or> str_includes wpSlug slug) \<or>
                               (str_includes (normalizeForMatch slug) n \<or>
                                str_includes n (normalizeForMatch slug))) staticSlugs
                     else None)
           (or_else (first_match DigitInsensitive
                       (\<lambda>slug. let sn = filter (\<lambda>c. \<not> isDigit c) (normalizeForMatch slug)
                               in sn = nNoDigits \<or> startsWith sn nNoDigits \<or>
                                  startsWith nNoDigits sn) staticSlugs)
                    (first_match PunctuationInsensitive
                       (\<lambda>slug. let sn = replace_runs isHyphen [45]
                                        (filter (\<lambda>c. c \<noteq> 33) (filter (\<lambda>c. c \<noteq> 63)
                                          (filter (\<lambda>c. \<not> isDigit c) (normalizeForMatch slug))))
                               in sn = nClean \<or> startsWith sn nClean \<or> startsWith nClean sn)
                       staticSlugs)))))"

definition findStaticSlug :: "jsstring option \<Rightarrow> jsstring list \<Rightarrow> jsstring option" where
  "findStaticSlug wpSlug staticSlugs = map_option snd (findStaticSlug_via wpSlug staticSlugs)"

text \<open>
  \<^verbatim>\<open>
  function buildUrlToRelative(urlToPath, staticSlugs) {
    const urlToRelative = new Map();
    const unmapped = [];
    for (const [url, wpPath] of urlToPath) {
      const wpSlug = postSlugFromWpPath(wpPath);
      const slug = findStaticSlug(wpSlug, staticSlugs);
      if (slug) {
        urlToRelative.set(url, `posts/${slug}.html`);
      } else {
        unmapped.push({ url, wpPath, wpSlug });
      }
    }
    return { urlToRelative, unmapped };
  }\<close>
\<close>

record unmapped_entry =
  um_url :: jsstring
  um_wpPath :: jsstring
  um_wpSlug :: "jsstring option"

definition buildUrlToRelative ::
  "(jsstring \<times> jsstring) list \<Rightarrow> jsstring list \<Rightarrow>
   (jsstring \<times> jsstring) list \<times> unmapped_entry list" where
  "buildUrlToRelative urlToPath staticSlugs =
     foldl (\<lambda>(urlToRelative, unmapped) (url, wpPath).
        let wpSlug = postSlugFromWpPath wpPath in
        (case findStaticSlug wpSlug staticSlugs of
           Some slug \<Rightarrow>
             if slug \<noteq> []
             then (AList.update url (ascii ''posts/'' @ slug @ ascii ''.html'') urlToRelative,
                   unmapped)
             else (urlToRelative,
                   unmapped @ [\<lparr>um_url = url, um_wpPath = wpPath, um_wpSlug = wpSlug\<rparr>])
         | None \<Rightarrow>
             (urlToRelative,
              unmapped @ [\<lparr>um_url = url, um_wpPath = wpPath, um_wpSlug = wpSlug\<rparr>])))
       ([], []) urlToPath"

subsection \<open>Sample paths\<close>

text \<open>
  The historical path \<open>2012/06/17/\<close> followed by the three ideographs U+8A18, U+4E8B,
  U+540D, and the canonical identifier made of the same ideographs followed by \<open>-2\<close>.
\<close>

definition kiji_path :: jsstring where
  "kiji_path = ascii ''2012/06/17/'' @ [0x8A18, 0x4E8B, 0x540D]"

definition kiji_slugs :: "jsstring list" where
  "kiji_slugs = [[0x8A18, 0x4E8B, 0x540D, 45, 50]]"

definition sample_urls :: "(jsstring \<times> jsstring) list" where
  "sample_urls =
     [(ascii ''http://futarigurashi.com/2013/06/sample-post'', ascii ''2013/06/sample-post''),
      (ascii ''http://futarigurashi.com/2013/06/gone'', ascii ''2013/06/gone'')]"

section \<open>Post reconciler\<close>

text \<open>An entry of \<open>data/posts.json\<close>, which is also an entry of the canonical list.\<close>

record post =
  slug :: jsstring
  title :: jsstring
  date :: jsstring
  dateRel :: jsstring
  categories :: "jsstring list"
  excerpt :: jsstring

text \<open>
  The front matter of a Markdown file as \<open>parseFrontmatter\<close> returns it: the keys the
  build script reads. A key that is absent is \<open>undefined\<close>. The script compares \<open>draft\<close>
  with the boolean \<open>true\<close> and with the string \<open>'true'\<close>, so \<open>draft\<close> is a value of either
  kind.
\<close>

datatype jsvalue = JUndefined | JBoolean bool | JString jsstring

record frontmatter =
  draft :: jsvalue
  meta_title :: "jsstring option"
  meta_date :: "jsstring option"
  meta_categories :: "jsstring list"
  meta_excerpt :: "jsstring option"

record source_document =
  doc_file :: jsstring
  meta :: frontmatter

text \<open>
  The built-in \<open>Date\<close>. How a string is parsed is left to the engine for all but a few
  formats, so the parser is a parameter: \<open>Date_parse s\<close> is the time value, in
  milliseconds, of \<open>new Date(s)\<close>, and \<open>None\<close> when the date is invalid; \<open>toISODate t\<close> is
  \<open>new Date(t).toISOString().slice(0, 10)\<close>. The clock \<open>new Date()\<close> is the parameter
  \<open>now\<close> of the functions that read it.
\<close>

record date_builtins =
  Date_parse :: "jsstring \<Rightarrow> int option"
  toISODate :: "int \<Rightarrow> jsstring"

text \<open>The decimal digits of a number, as string concatenation writes an integer.\<close>

function decimal :: "nat \<Rightarrow> jsstring" where
  "decimal n = (if n < 10 then [48 + n] else decimal (n div 10) @ [48 + n mod 10])"
  by pat_completeness auto
termination
  by (relation "measure id") auto

declare decimal.simps [simp del]

definition Number_toString :: "int \<Rightarrow> jsstring" where
  "Number_toString i = (if i < 0 then 45 # decimal (nat (- i)) else decimal (nat i))"

text \<open>
  \<^verbatim>\<open>
  function formatDateRel(dateStr) {
    if (!dateStr) return '';
    const d = new Date(dateStr);
    if (isNaN(d.getTime())) return '';
    const now = new Date();
    const months = Math.floor((now - d) / (30 * 24 * 60 * 60 * 1000));
    if (months < 1) return 'recently';
    if (months < 12) return months + ' months ago';
    const years = Math.floor(months / 12);
    return years + ' year' + (years > 1 ? 's' : '') + ' ago';
  }\<close>
\<close>

definition formatDateRel :: "date_builtins \<Rightarrow> int \<Rightarrow> jsstring \<Rightarrow> jsstring" where
  "formatDateRel env now dateStr =
     (if dateStr = [] then []
      else case Date_parse env dateStr of
        None \<Rightarrow> []
      | Some d \<Rightarrow>
          let months = (now - d) div (30 * 24 * 60 * 60 * 1000) in
          if months < 1 then ascii ''recently''
          else if months < 12 then Number_toString months @ ascii '' months ago''
          else let years = months div 12
               in Number_toString years @ ascii '' year'' @
                  (if years > 1 then ascii ''s'' else []) @ ascii '' ago'')"

text \<open>
  \<^verbatim>\<open>
  function formatDateYMD(dateStr) {
    if (!dateStr) return '';
    const d = new Date(dateStr);
    if (isNaN(d.getTime())) return dateStr;
    return d.toISOString().slice(0, 10);
  }\<close>
\<close>

definition formatDateYMD :: "date_builtins \<Rightarrow> jsstring \<Rightarrow> jsstring" where
  "formatDateYMD env dateStr =
     (if dateStr = [] then []
      else case Date_parse env dateStr of
        None \<Rightarrow> dateStr
      | Some d \<Rightarrow> toISODate env d)"

text \<open>\<open>String.prototype.endsWith\<close>, and \<open>a || b\<close> for a string \<open>a\<close> that may be undefined.\<close>

definition endsWith :: "jsstring \<Rightarrow> jsstring \<Rightarrow> bool" where
  "endsWith s suffix \<longleftrightarrow>
     length suffix \<le> length s \<and> drop (length s - length suffix) s = suffix"

definition or_default :: "jsstring option \<Rightarrow> jsstring \<Rightarrow> jsstring" where
  "or_default v d = (case v of None \<Rightarrow> d | Some s \<Rightarrow> if s = [] then d else s)"

text \<open>
  The body of the loop over the Markdown files of \<open>content/\<close>, as far as it touches the
  map \<open>bySlug\<close> (the HTML page it also writes is left out):
  \<^verbatim>\<open>
  for (const file of files) {
    const slug = file.slice(0, -3);
    const raw = fs.readFileSync(path.join(CONTENT_DIR, file), 'utf8');
    const { meta, body } = parseFrontmatter(raw);
    if (meta.draft === true || meta.draft === 'true') continue;
    const title = meta.title || slug;
    const dateStr = meta.date || new Date().toISOString().slice(0, 10);
    const categories = Array.isArray(meta.categories) ? meta.categories
      : (meta.categories ? [meta.categories] : []);
    const excerpt = meta.excerpt || '';
    ...
    bySlug.set(slug, {
      slug, title, date: formatDateYMD(dateStr), dateRel: formatDateRel(dateStr),
      categories: categories || [], excerpt
    });
  }\<close>
  \<open>parseFrontmatter\<close> always returns an array of categories.
\<close>

definition isDraft :: "frontmatter \<Rightarrow> bool" where
  "isDraft m \<longleftrightarrow> draft m = JBoolean True \<or> draft m = JString (ascii ''true'')"

definition file_slug :: "source_document \<Rightarrow> jsstring" where
  "file_slug d = take (length (doc_file d) - 3) (doc_file d)"

definition merge_document ::
  "date_builtins \<Rightarrow> int \<Rightarrow> (jsstring \<times> post) list \<Rightarrow> source_document \<Rightarrow> (jsstring \<times> post) list" where
  "merge_document env now bySlug d =
     (let slug = file_slug d in
      if isDraft (meta d) then bySlug
      else
        let title = or_default (meta_title (meta d)) slug;
            dateStr = or_default (meta_date (meta d)) (toISODate env now);
            categories = meta_categories (meta d);
            excerpt = or_default (meta_excerpt (meta d)) []
        in AList.update slug
             \<lparr>slug = slug, title = title, date = formatDateYMD env dateStr,
              dateRel = formatDateRel env now dateStr, categories = categories,
              excerpt = excerpt\<rparr> bySlug)"

text \<open>
  \<open>[...bySlug.values()].sort((a, b) => new Date(b.date) - new Date(a.date))\<close>. The sort
  of the language is stable, and a comparator result \<open>NaN\<close>, from an invalid date, counts
  as 0. With valid dates the result is the stable insertion sort below; with an invalid
  date the comparator is not consistent and the language leaves the order to the engine.
  No property proved here depends on the order.
\<close>

definition by_date_desc :: "date_builtins \<Rightarrow> post \<Rightarrow> post \<Rightarrow> int" where
  "by_date_desc env a b =
     (case (Date_parse env (date b), Date_parse env (date a)) of
        (Some tb, Some ta) \<Rightarrow> tb - ta
      | _ \<Rightarrow> 0)"

fun insert_by :: "('a \<Rightarrow> 'a \<Rightarrow> int) \<Rightarrow> 'a \<Rightarrow> 'a list \<Rightarrow> 'a list" where
  "insert_by c x [] = [x]"
| "insert_by c x (y # ys) = (if c x y \<le> 0 then x # y # ys else y # insert_by c x ys)"

definition sort_by :: "('a \<Rightarrow> 'a \<Rightarrow> int) \<Rightarrow> 'a list \<Rightarrow> 'a list" where
  "sort_by c xs = foldr (insert_by c) xs []"

text \<open>
  \<^verbatim>\<open>
  const bySlug = new Map(postsData.map((p) => [p.slug, { ...p }]));
  if (fs.existsSync(CONTENT_DIR)) {
    const files = fs.readdirSync(CONTENT_DIR).filter((f) => f.endsWith('.md'));
    for (const file of files) { ... }
  }
  postsData = [...bySlug.values()].sort((a, b) => new Date(b.date) - new Date(a.date));\<close>
  The inputs are the persisted list and the files of \<open>content/\<close>, each with its name and
  its front matter; the result is the new canonical list. The script reads the clock anew
  for every file; a run is modelled with the one reading \<open>now\<close>.
\<close>

definition md_files :: "source_document list \<Rightarrow> source_document list" where
  "md_files ds = filter (\<lambda>d. endsWith (doc_file d) (ascii ''.md'')) ds"

definition reconcile ::
  "date_builtins \<Rightarrow> int \<Rightarrow> post list \<Rightarrow> source_document list \<Rightarrow> post list" where
  "reconcile env now postsData contentFiles =
     (let bySlug = foldl (\<lambda>m p. AList.update (slug p) p m) [] postsData;
          files = md_files contentFiles;
          bySlug' = foldl (merge_document env now) bySlug files
      in sort_by (by_date_desc env) (map snd bySlug'))"

text \<open>Every entry of the map is filed under its own slug.\<close>

definition keyed_by_slug :: "(jsstring \<times> post) list \<Rightarrow> bool" where
  "keyed_by_slug m \<longleftrightarrow> (\<forall>(k, p) \<in> set m. slug p = k)"

text \<open>
  A record without its relative date, and a document that is a draft or carries a date
  of its own.
\<close>

definition erase_dateRel :: "post \<Rightarrow> post" where
  "erase_dateRel p = p\<lparr>dateRel := []\<rparr>"

definition dated :: "source_document \<Rightarrow> bool" where
  "dated d \<longleftrightarrow> isDraft (meta d) \<or> (\<exists>s. meta_date (meta d) = Some s \<and> s \<noteq> [])"

subsection \<open>Sample posts and documents\<close>

text \<open>
  An engine that parses the two dates used below as the language prescribes for the
  date-only form: midnight UTC of 2020-01-01 is 1577836800000 and of 2019-05-05 is
  1557014400000. The clock readings used are 1577923200000, one day after the first
  date, and 1612396800000, 400 days after it.
\<close>

definition sample_dates :: date_builtins where
  "sample_dates =
     \<lparr>Date_parse = map_of [(ascii ''2020-01-01'', 1577836800000), (ascii ''2019-05-05'', 1557014400000)],
      toISODate = (\<lambda>t. if t = 1577836800000 then ascii ''2020-01-01''
                        else if t = 1557014400000 then ascii ''2019-05-05'' else [])\<rparr>"

definition hello_post :: post where
  "hello_post = \<lparr>slug = ascii ''hello'', title = ascii ''Hello'', date = ascii ''2019-05-05'',
     dateRel = ascii ''8 months ago'', categories = [ascii ''Travel''], excerpt = []\<rparr>"

definition hello_draft :: source_document where
  "hello_draft = \<lparr>doc_file = ascii ''hello.md'',
     meta = \<lparr>draft = JString (ascii ''true''), meta_title = Some (ascii ''Hello again''),
       meta_date = Some (ascii ''2020-01-01''), meta_categories = [], meta_excerpt = None\<rparr>\<rparr>"

definition hello_fresh :: source_document where
  "hello_fresh = \<lparr>doc_file = ascii ''hello.md'',
     meta = \<lparr>draft = JUndefined, meta_title = Some (ascii ''Hello again''),
       meta_date = Some (ascii ''2020-01-01''), meta_categories = [], meta_excerpt = None\<rparr>\<rparr>"

section \<open>Properties of the identifier normalizer\<close>

lemma replace_runs_none: "\<forall>c \<in> set s. \<not> P c \<Longrightarrow> replace_runs P r s = s"
  by (induction s) auto

lemma dropWhile_none: "\<forall>c \<in> set s. \<not> P c \<Longrightarrow> dropWhile P s = s"
  by (cases s) auto

lemma trim_none: "\<forall>c \<in> set s. \<not> isWhiteSpace c \<Longrightarrow> trim s = s"
  by (simp add: trim_def dropWhile_none)

lemma slugChar_not_space: "isSlugChar c \<Longrightarrow> \<not> isWhiteSpace c"
  by (auto simp: isSlugChar_def isWhiteSpace_def isWordChar_def isDigit_def)

lemma replace_runs_head:
  "s = [] \<or> \<not> P (hd s) \<Longrightarrow>
   replace_runs P r s = [] \<or> \<not> P (hd (replace_runs P r s))"
  by (cases s) auto

lemma single_hyphens_Cons:
  "single_hyphens (a # s) \<longleftrightarrow> (s = [] \<or> \<not> (isHyphen a \<and> isHyphen (hd s))) \<and> single_hyphens s"
  by (cases s) auto

lemma dropWhile_head: "dropWhile P s = [] \<or> \<not> P (hd (dropWhile P s))"
  using hd_dropWhile by blast

lemma single_hyphens_collapse: "single_hyphens (replace_runs isHyphen [45] s)"
proof (induction isHyphen "[45::nat]" s rule: replace_runs.induct)
  case 1
  show ?case by simp
next
  case (2 c cs)
  show ?case
  proof (cases "isHyphen c")
    case True
    have "replace_runs isHyphen [45] (dropWhile isHyphen cs) = [] \<or>
          \<not> isHyphen (hd (replace_runs isHyphen [45] (dropWhile isHyphen cs)))"
      by (rule replace_runs_head) (rule dropWhile_head)
    with True 2 show ?thesis by (simp add: single_hyphens_Cons)
  next
    case False
    with 2 show ?thesis by (simp add: single_hyphens_Cons)
  qed
qed

lemma single_hyphens_take: "single_hyphens s \<Longrightarrow> single_hyphens (take n s)"
proof (induction s arbitrary: n)
  case Nil
  show ?case by simp
next
  case (Cons a s)
  show ?case
  proof (cases n)
    case 0
    then show ?thesis by simp
  next
    case (Suc m)
    from Cons.prems have "single_hyphens s" by (simp add: single_hyphens_Cons)
    then have "single_hyphens (take m s)" by (rule Cons.IH)
    with Cons.prems Suc show ?thesis
      by (cases m; cases s) (auto simp: single_hyphens_Cons)
  qed
qed

lemma collapse_single_hyphens:
  "single_hyphens s \<Longrightarrow> replace_runs isHyphen [45] s = s"
proof (induction s rule: single_hyphens.induct)
  case (1 a b s)
  then show ?case by (cases "isHyphen a") (auto simp: isHyphen_def)
qed (auto simp: isHyphen_def)

lemma set_replace_runs: "set (replace_runs P r s) \<subseteq> set r \<union> set s"
proof (induction P r s rule: replace_runs.induct)
  case (2 P r c cs)
  then show ?case using set_dropWhileD [of _ P cs] by (cases "P c") auto
qed simp

lemma slugify_fixed:
  assumes "\<forall>c \<in> set s. isSlugChar c" "single_hyphens s" "length s \<le> 80" "s \<noteq> []"
  shows "slugify s = s"
proof -
  from assms(1) have "\<forall>c \<in> set s. \<not> isWhiteSpace c" by (blast dest: slugChar_not_space)
  then have "replace_runs isWhiteSpace [45] (trim s) = s"
    by (simp add: trim_none replace_runs_none)
  moreover from assms(1) have "filter isSlugChar s = s" by simp
  ultimately show ?thesis using assms(2-4)
    by (simp add: slugify_def collapse_single_hyphens)
qed

lemma slugify_post: "slugify (ascii ''post'') = ascii ''post''"
  by (simp add: slugify_def ascii_def trim_def isWhiteSpace_def isSlugChar_def isWordChar_def
      isDigit_def isHyphen_def)

text \<open>
  C8. The identifier normalizer is idempotent: for every string \<open>s\<close>, normalizing
  \<open>slugify s\<close> again returns \<open>slugify s\<close> unchanged.
\<close>

theorem slugify_idempotent: "slugify (slugify s) = slugify s"
proof -
  define u where "u = replace_runs isHyphen [45]
    (filter isSlugChar (replace_runs isWhiteSpace [45] (trim s)))"
  define t where "t = take 80 u"
  have eq: "slugify s = (if t = [] then ascii ''post'' else t)"
    by (simp add: slugify_def t_def u_def)
  show ?thesis
  proof (cases "t = []")
    case True
    with eq show ?thesis by (simp add: slugify_post)
  next
    case False
    have "set u \<subseteq> {45} \<union> set (filter isSlugChar (replace_runs isWhiteSpace [45] (trim s)))"
      unfolding u_def
      using set_replace_runs [of isHyphen "[45]"
          "filter isSlugChar (replace_runs isWhiteSpace [45] (trim s))"] by simp
    then have "\<forall>c \<in> set u. isSlugChar c" by (auto simp: isSlugChar_def)
    then have 1: "\<forall>c \<in> set t. isSlugChar c" unfolding t_def by (blast dest: in_set_takeD)
    have 2: "single_hyphens t" unfolding t_def u_def
      by (intro single_hyphens_take single_hyphens_collapse)
    have 3: "length t \<le> 80" by (simp add: t_def)
    from slugify_fixed [OF 1 2 3 False] eq False show ?thesis by simp
  qed
qed

section \<open>Properties of the paginator\<close>

lemma gaps_marked_run:
  "a \<le> b \<Longrightarrow> gaps_marked (Page a # map Page [a + 1..b] @ r) = gaps_marked (Page b # r)"
proof (induction "nat (b - a)" arbitrary: a)
  case 0
  then have "a = b" by simp
  then show ?case by simp
next
  case (Suc n)
  then have "a + 1 \<le> b" and "n = nat (b - (a + 1))" by linarith+
  with Suc.hyps(1) [of "a + 1"] show ?case
    by (simp add: upto_rec1 [of "a + 1" b])
qed

lemma gaps_marked_window:
  assumes "3 \<le> T" "1 \<le> c" "c \<le> T"
  shows "gaps_marked (getPageNumbers c T)"
proof -
  define l where "l = max 2 (c - 2)"
  define r where "r = min (T - 1) (c + 2)"
  from assms have lr: "l \<le> r" "2 \<le> l" "r \<le> T - 1" by (auto simp: l_def r_def)
  have run: "gaps_marked (Page l # map Page [l + 1..r] @ t) = gaps_marked (Page r # t)" for t
    using lr(1) by (rule gaps_marked_run)
  have tail: "gaps_marked (Page r # (if r < T - 1 then [Ellipsis] else []) @ [Page T])"
    using lr(3) by auto
  have "[l..r] = l # [l + 1..r]"
    using lr(1) by (rule upto_rec1)
  then have "getPageNumbers c T = [Page 1] @ (if l > 2 then [Ellipsis] else []) @
      (Page l # map Page [l + 1..r]) @ (if r < T - 1 then [Ellipsis] else []) @ [Page T]"
    using assms(1) unfolding getPageNumbers_def Let_def l_def [symmetric] r_def [symmetric]
    by simp
  also have "gaps_marked \<dots>"
    using lr(2) run [of "(if r < T - 1 then [Ellipsis] else []) @ [Page T]"] tail
    by (cases "l > 2") simp_all
  finally show ?thesis .
qed

lemma set_getPageNumbers:
  "2 \<le> T \<Longrightarrow> Page p \<in> set (getPageNumbers c T) \<longleftrightarrow>
     p = 1 \<or> p = T \<or> (max 2 (c - 2) \<le> p \<and> p \<le> min (T - 1) (c + 2))"
  by (auto simp: getPageNumbers_def Let_def)

lemma getPageNumbers_ends:
  "2 \<le> T \<Longrightarrow> hd (getPageNumbers c T) = Page 1 \<and> last (getPageNumbers c T) = Page T"
  by (simp add: getPageNumbers_def Let_def)

lemma getPageNumbers_two: "1 \<le> c \<Longrightarrow> c \<le> 2 \<Longrightarrow> getPageNumbers c 2 = [Page 1, Page 2]"
  by (simp add: getPageNumbers_def Let_def)

text \<open>
  C9. The windowed page-number sequence for current page \<open>c\<close> and total \<open>T\<close> is \<open>[1]\<close>
  when \<open>T \<le> 1\<close>. Otherwise it contains page 1, page \<open>T\<close> and every page within radius 2
  of \<open>c\<close>, and no other page; and for a current page between 1 and \<open>T\<close> it starts with
  page 1, ends with page \<open>T\<close>, and shows exactly one ellipsis in each gap between page
  numbers that are not consecutive. The window for \<open>(1, 10)\<close> is \<open>[1, 2, 3, \<dots>, 10]\<close> and
  the window for \<open>(5, 10)\<close> is \<open>[1, \<dots>, 3, 4, 5, 6, 7, \<dots>, 10]\<close>.
\<close>

theorem getPageNumbers_window:
  "(T \<le> 1 \<longrightarrow> getPageNumbers c T = [Page 1]) \<and>
   (2 \<le> T \<longrightarrow>
      Page 1 \<in> set (getPageNumbers c T) \<and> Page T \<in> set (getPageNumbers c T) \<and>
      (\<forall>p. 1 \<le> p \<and> p \<le> T \<and> \<bar>p - c\<bar> \<le> 2 \<longrightarrow> Page p \<in> set (getPageNumbers c T)) \<and>
      (\<forall>p. Page p \<in> set (getPageNumbers c T) \<longrightarrow> p = 1 \<or> p = T \<or> \<bar>p - c\<bar> \<le> 2)) \<and>
   (2 \<le> T \<and> 1 \<le> c \<and> c \<le> T \<longrightarrow>
      hd (getPageNumbers c T) = Page 1 \<and> last (getPageNumbers c T) = Page T \<and>
      gaps_marked (getPageNumbers c T)) \<and>
   getPageNumbers 1 10 = [Page 1, Page 2, Page 3, Ellipsis, Page 10] \<and>
   getPageNumbers 5 10 =
     [Page 1, Ellipsis, Page 3, Page 4, Page 5, Page 6, Page 7, Ellipsis, Page 10]"
proof (intro conjI impI)
  show "getPageNumbers c T = [Page 1]" if "T \<le> 1"
    using that by (simp add: getPageNumbers_def)
  show "Page 1 \<in> set (getPageNumbers c T)" if "2 \<le> T"
    using that by (simp add: set_getPageNumbers)
  show "Page T \<in> set (getPageNumbers c T)" if "2 \<le> T"
    using that by (simp add: set_getPageNumbers)
  show "\<forall>p. 1 \<le> p \<and> p \<le> T \<and> \<bar>p - c\<bar> \<le> 2 \<longrightarrow> Page p \<in> set (getPageNumbers c T)"
    if "2 \<le> T"
    using that by (auto simp: set_getPageNumbers)
  show "\<forall>p. Page p \<in> set (getPageNumbers c T) \<longrightarrow> p = 1 \<or> p = T \<or> \<bar>p - c\<bar> \<le> 2"
    if "2 \<le> T"
    using that by (auto simp: set_getPageNumbers)
  show "hd (getPageNumbers c T) = Page 1" if "2 \<le> T \<and> 1 \<le> c \<and> c \<le> T"
    using that by (simp add: getPageNumbers_ends)
  show "last (getPageNumbers c T) = Page T" if "2 \<le> T \<and> 1 \<le> c \<and> c \<le> T"
    using that by (simp add: getPageNumbers_ends)
  show "gaps_marked (getPageNumbers c T)" if "2 \<le> T \<and> 1 \<le> c \<and> c \<le> T"
  proof (cases "T = 2")
    case True
    with that show ?thesis by (simp add: getPageNumbers_two)
  next
    case False
    with that show ?thesis by (intro gaps_marked_window) auto
  qed
  show "getPageNumbers 1 10 = [Page 1, Page 2, Page 3, Ellipsis, Page 10]"
    by (simp add: getPageNumbers_def Let_def upto_rec1)
  show "getPageNumbers 5 10 =
     [Page 1, Ellipsis, Page 3, Page 4, Page 5, Page 6, Page 7, Ellipsis, Page 10]"
    by (simp add: getPageNumbers_def Let_def upto_rec1)
qed

theorem getPageNumbers_window_witness:
  "getPageNumbers 1 0 = [Page 1] \<and>
   Page 1 \<in> set (getPageNumbers 7 12) \<and> Page 12 \<in> set (getPageNumbers 7 12) \<and>
   Page 9 \<in> set (getPageNumbers 7 12) \<and> Page 3 \<notin> set (getPageNumbers 7 12) \<and>
   hd (getPageNumbers 7 12) = Page 1 \<and> last (getPageNumbers 7 12) = Page 12 \<and>
   gaps_marked (getPageNumbers 7 12)"
proof -
  note w = getPageNumbers_window [of 12 7]
  have "Page 9 \<in> set (getPageNumbers 7 12)"
    using w by (simp add: abs_if)
  moreover have "Page 3 \<notin> set (getPageNumbers 7 12)"
    using w by (auto simp: abs_if)
  ultimately show ?thesis
    using getPageNumbers_window [of 0 1] w by simp
qed

lemma totalCatPages_min: "1 \<le> totalCatPages n \<and> totalCatPages 0 = 1"
  by (simp add: totalCatPages_def)

lemma totalPages_nonempty: "0 < n \<Longrightarrow> totalPages n = totalCatPages n"
  by (simp add: totalPages_def totalCatPages_def PER_PAGE_def)

lemma totalPages_div: "totalPages n = int ((n + 9) div 10)"
proof -
  have "\<lceil>real n / 10\<rceil> = - ((- int n) div 10)"
    using ceiling_divide_eq_div [of "int n" 10] by simp
  also have "\<dots> = int ((n + 9) div 10)" by linarith
  finally show ?thesis by (simp add: totalPages_def PER_PAGE_def)
qed

text \<open>
  C2. With an empty canonical list the main listing computes a page count of 0, where
  the category listing computes 1.
\<close>

theorem totalPages_empty: "totalPages 0 = 0 \<and> totalCatPages 0 = 1"
  by (simp add: totalPages_def totalCatPages_def)

text \<open>
  A category with the nicename \<open>2012\<close> and a category \<open>june\<close> that declares it as parent,
  where the XML parser has returned both occurrences of \<open>2012\<close> as a number.
\<close>

definition numeric_parent_categories :: "wp_category list" where
  "numeric_parent_categories =
     [\<lparr>wp_category_nicename = XNumber (ascii ''2012''), wp_cat_name = XString (ascii ''Year 2012''),
       wp_category_parent = XString []\<rparr>,
      \<lparr>wp_category_nicename = XString (ascii ''june''), wp_cat_name = XString (ascii ''June''),
       wp_category_parent = XNumber (ascii ''2012'')\<rparr>]"

text \<open>
  A root \<open>kansai\<close> and a category \<open>osaka\<close> with the same display name \<open>Kansai\<close>, whose
  declared parent \<open>japan\<close> is not in the list.
\<close>

definition namesake_categories :: "wp_category list" where
  "namesake_categories =
     [\<lparr>wp_category_nicename = XString (ascii ''kansai''), wp_cat_name = XString (ascii ''Kansai''),
       wp_category_parent = XString []\<rparr>,
      \<lparr>wp_category_nicename = XString (ascii ''osaka''), wp_cat_name = XString (ascii ''Kansai''),
       wp_category_parent = XString (ascii ''japan'')\<rparr>]"

section \<open>Properties of the category tree builder\<close>

subsection \<open>Root nodes\<close>

lemma dangling_eq: "catByNicename dangling_categories =
   [(ascii ''osaka'', \<lparr>name = ascii ''Osaka'', parentNicename = Some (ascii ''japan'')\<rparr>)]"
  by (simp add: catByNicename_def dangling_categories_def ascii_def trim_def isWhiteSpace_def Let_def)

lemma foldl_keys_distinct:
  assumes "\<And>m c. distinct (map fst m) \<Longrightarrow> distinct (map fst (f m c))"
  shows "distinct (map fst m) \<Longrightarrow> distinct (map fst (foldl f m cs))"
  by (induction cs arbitrary: m) (auto intro: assms)

lemma distinct_catByNicename: "distinct (map fst (catByNicename cs))"
  unfolding catByNicename_def
  by (rule foldl_keys_distinct) (auto simp: Let_def distinct_update)

lemma find_append_cases:
  "find P (xs @ ys) = (case find P xs of None \<Rightarrow> find P ys | Some x \<Rightarrow> Some x)"
  by (induction xs) auto

lemma map_of_fold:
  "map_of (foldl (\<lambda>m c.
        if trim (textOf (wp_cat_name c)) \<noteq> []
        then AList.update (trim (textOf (wp_category_nicename c))) (category_info_of c) m
        else m) m0 cs) n =
   (case declaring_element cs n of
      Some c \<Rightarrow> Some (category_info_of c)
    | None \<Rightarrow> map_of m0 n)"
proof (induction cs arbitrary: m0)
  case Nil
  show ?case by (simp add: declaring_element_def)
next
  case (Cons c cs)
  show ?case
    by (simp add: Cons.IH declaring_element_def find_append_cases update_conv'
        split: option.splits)
qed

lemma map_of_catByNicename:
  "map_of (catByNicename cs) n = map_option category_info_of (declaring_element cs n)"
proof -
  have "catByNicename cs = foldl (\<lambda>m c.
        if trim (textOf (wp_cat_name c)) \<noteq> []
        then AList.update (trim (textOf (wp_category_nicename c))) (category_info_of c) m
        else m) [] cs"
    unfolding catByNicename_def category_info_of_def Let_def by (rule refl)
  then show ?thesis
    by (simp add: map_of_fold split: option.splits)
qed

lemma in_topLevelNicenames:
  "n \<in> set (topLevelNicenames (catByNicename cs)) \<longleftrightarrow>
     (\<exists>info. map_of (catByNicename cs) n = Some info \<and> parentNicename info = None)"
proof -
  have "map_of (catByNicename cs) n = Some info \<longleftrightarrow> (n, info) \<in> set (catByNicename cs)"
    for info
    using distinct_catByNicename [of cs] by simp
  then show ?thesis
    by (force simp: topLevelNicenames_def)
qed

lemma in_spec_roots:
  "n \<in> set (spec_roots (catByNicename cs)) \<longleftrightarrow>
     (\<exists>info. map_of (catByNicename cs) n = Some info \<and>
        (case parentNicename info of None \<Rightarrow> True
         | Some p \<Rightarrow> map_of (catByNicename cs) p = None))"
proof -
  have "map_of (catByNicename cs) n = Some info \<longleftrightarrow> (n, info) \<in> set (catByNicename cs)"
    for info
    using distinct_catByNicename [of cs] by simp
  then show ?thesis
    by (force simp: spec_roots_def)
qed

lemma dangling_declaring:
  "declaring_element dangling_categories (ascii ''osaka'') =
     Some \<lparr>wp_category_nicename = XString (ascii ''osaka''),
       wp_cat_name = XString (ascii ''Osaka''), wp_category_parent = XString (ascii ''japan'')\<rparr>"
  "declaring_element dangling_categories (ascii ''japan'') = None"
  by (simp_all add: declaring_element_def dangling_categories_def ascii_def trim_def
      isWhiteSpace_def)

lemma numeric_parent_declaring:
  "declaring_element numeric_parent_categories (ascii ''june'') =
     Some \<lparr>wp_category_nicename = XString (ascii ''june''),
       wp_cat_name = XString (ascii ''June''), wp_category_parent = XNumber (ascii ''2012'')\<rparr>"
  by (simp add: declaring_element_def numeric_parent_categories_def ascii_def trim_def
      isWhiteSpace_def)

text \<open>
  C3, as the specification states it, fails: the category \<open>osaka\<close>, whose declared parent
  \<open>japan\<close> is absent from the input, is a root in the words of the specification, but the
  computed root list is empty and the category gets no path identifier.
\<close>

theorem dangling_parent_not_root:
  "spec_roots (catByNicename dangling_categories) = [ascii ''osaka''] \<and>
   topLevelNicenames (catByNicename dangling_categories) = [] \<and>
   allCategoriesWithSlug (catByNicename dangling_categories) = Some []"
  by (simp add: dangling_eq spec_roots_def topLevelNicenames_def allCategoriesWithSlug_def
      topLevelCats_def ascii_def)

text \<open>
  C3, amended. For every flat input list of category elements, a node is in the computed
  root set \<open>topLevelNicenames\<close> exactly when the element that declares it has a parent
  field whose text, as \<open>textOf\<close> reads it, is empty after trimming. A node whose element
  declares a non-empty parent is not in the computed root set, whether that parent is in
  the input or not; when the parent is absent from the input, the node is a root in the
  words of the specification (\<open>spec_roots\<close>) and not one in the code. The statement is
  about the computed root set only, not about the nodes from which paths are built.
\<close>

theorem topLevelNicenames_declared:
  "(n \<in> set (topLevelNicenames (catByNicename cs)) \<longleftrightarrow>
      (\<exists>c. declaring_element cs n = Some c \<and> trim (textOf (wp_category_parent c)) = [])) \<and>
   (declaring_element cs n = Some c \<and> trim (textOf (wp_category_parent c)) \<noteq> [] \<longrightarrow>
      n \<notin> set (topLevelNicenames (catByNicename cs))) \<and>
   (declaring_element cs n = Some c \<and> trim (textOf (wp_category_parent c)) \<noteq> [] \<and>
    declaring_element cs (trim (textOf (wp_category_parent c))) = None \<longrightarrow>
      n \<in> set (spec_roots (catByNicename cs)))"
proof (intro conjI impI)
  show root: "n \<in> set (topLevelNicenames (catByNicename cs)) \<longleftrightarrow>
      (\<exists>c. declaring_element cs n = Some c \<and> trim (textOf (wp_category_parent c)) = [])"
    by (auto simp: in_topLevelNicenames map_of_catByNicename category_info_of_def)
  show "n \<notin> set (topLevelNicenames (catByNicename cs))"
    if "declaring_element cs n = Some c \<and> trim (textOf (wp_category_parent c)) \<noteq> []"
    using that by (auto simp: root)
  show "n \<in> set (spec_roots (catByNicename cs))"
    if "declaring_element cs n = Some c \<and> trim (textOf (wp_category_parent c)) \<noteq> [] \<and>
      declaring_element cs (trim (textOf (wp_category_parent c))) = None"
    using that by (simp add: in_spec_roots map_of_catByNicename category_info_of_def)
qed

theorem topLevelNicenames_declared_witness:
  "ascii ''osaka'' \<notin> set (topLevelNicenames (catByNicename dangling_categories)) \<and>
   ascii ''osaka'' \<in> set (spec_roots (catByNicename dangling_categories)) \<and>
   ascii ''june'' \<in> set (topLevelNicenames (catByNicename numeric_parent_categories))"
proof -
  have "trim (textOf (XString (ascii ''japan''))) = ascii ''japan''"
    by (simp add: ascii_def trim_def isWhiteSpace_def)
  moreover have "ascii ''japan'' \<noteq> []" by (simp add: ascii_def)
  ultimately have
    "ascii ''osaka'' \<notin> set (topLevelNicenames (catByNicename dangling_categories)) \<and>
     ascii ''osaka'' \<in> set (spec_roots (catByNicename dangling_categories))"
    using topLevelNicenames_declared [of "ascii ''osaka''" dangling_categories
        "\<lparr>wp_category_nicename = XString (ascii ''osaka''),
          wp_cat_name = XString (ascii ''Osaka''),
          wp_category_parent = XString (ascii ''japan'')\<rparr>"]
    by (simp add: dangling_declaring)
  moreover have
    "ascii ''june'' \<in> set (topLevelNicenames (catByNicename numeric_parent_categories))"
    using topLevelNicenames_declared [of "ascii ''june''" numeric_parent_categories]
    by (simp add: numeric_parent_declaring trim_def)
  ultimately show ?thesis by simp
qed

text \<open>
  A parent field that the XML parser returned as a number reads as empty, so the node is a
  root; a nicename that it returned as a number is stored under the empty key.
\<close>

lemma numeric_parent_is_root:
  "topLevelNicenames (catByNicename numeric_parent_categories) = [[], ascii ''june'']"
  by (simp add: catByNicename_def numeric_parent_categories_def topLevelNicenames_def ascii_def
      trim_def isWhiteSpace_def Let_def)

text \<open>
  The paths are built from the display names of the roots, and a display name is resolved
  to the last node that carries it (\<open>nameToNicename\<close>). A node with a dangling parent
  that carries the display name of a root is therefore walked with the empty path in the
  place of that root, although it is not in the computed root set.
\<close>

lemma namesake_eq: "catByNicename namesake_categories =
  [(ascii ''kansai'', \<lparr>name = ascii ''Kansai'', parentNicename = None\<rparr>),
   (ascii ''osaka'', \<lparr>name = ascii ''Kansai'', parentNicename = Some (ascii ''japan'')\<rparr>)]"
  by (simp add: catByNicename_def namesake_categories_def ascii_def trim_def isWhiteSpace_def
      Let_def)

lemma namesake_walked:
  "topLevelNicenames (catByNicename namesake_categories) = [ascii ''kansai''] \<and>
   allCategoriesWithSlug (catByNicename namesake_categories) = Some
     [\<lparr>cat_nicename = ascii ''osaka'', cat_name = ascii ''Kansai'', cat_slug = ascii ''Kansai''\<rparr>]"
proof -
  have cats: "topLevelCats (catByNicename namesake_categories) = [ascii ''Kansai'']"
    by (simp add: namesake_eq topLevelCats_def topLevelNicenames_def ascii_def)
  have names: "nameToNicename (catByNicename namesake_categories) =
      [(ascii ''Kansai'', ascii ''osaka'')]"
    by (simp add: namesake_eq nameToNicename_def ascii_def)
  have "allCategoriesWithSlug (catByNicename namesake_categories) = Some
     [\<lparr>cat_nicename = ascii ''osaka'', cat_name = ascii ''Kansai'', cat_slug = ascii ''Kansai''\<rparr>]"
    unfolding allCategoriesWithSlug_def cats names
    unfolding namesake_eq
    by (simp add: addCategoryWithPath.simps getDirectChildren_def categorySlug_def ascii_def
        slugify_def trim_def isWhiteSpace_def isSlugChar_def isWordChar_def isDigit_def
        isHyphen_def)
  then show ?thesis by (simp add: namesake_eq topLevelNicenames_def)
qed

subsection \<open>Path identifiers\<close>

lemma shared_path_eq: "catByNicename shared_path_categories =
  [(ascii ''travel-brazil'', \<lparr>name = ascii ''Travel-Brazil'', parentNicename = None\<rparr>),
   (ascii ''travel'', \<lparr>name = ascii ''Travel'', parentNicename = None\<rparr>),
   (ascii ''brazil'', \<lparr>name = ascii ''Brazil'', parentNicename = Some (ascii ''travel'')\<rparr>)]"
  by (simp add: catByNicename_def shared_path_categories_def ascii_def trim_def isWhiteSpace_def Let_def)

lemma shared_path_topLevelCats:
  "topLevelCats (catByNicename shared_path_categories) =
     [ascii ''Travel'', ascii ''Travel-Brazil'']"
  by (simp add: shared_path_eq topLevelCats_def topLevelNicenames_def ascii_def)

lemma shared_path_nameToNicename:
  "nameToNicename (catByNicename shared_path_categories) =
     [(ascii ''Travel-Brazil'', ascii ''travel-brazil''), (ascii ''Travel'', ascii ''travel''),
      (ascii ''Brazil'', ascii ''brazil'')]"
  by (simp add: shared_path_eq nameToNicename_def ascii_def)

text \<open>
  C4. The root \<open>Travel-Brazil\<close> and the child \<open>Brazil\<close> of the root \<open>Travel\<close> are
  different nodes with the same path identifier \<open>Travel-Brazil\<close>.
\<close>

theorem path_identifiers_collide:
  "allCategoriesWithSlug (catByNicename shared_path_categories) = Some
     [\<lparr>cat_nicename = ascii ''travel'', cat_name = ascii ''Travel'',
       cat_slug = ascii ''Travel''\<rparr>,
      \<lparr>cat_nicename = ascii ''brazil'', cat_name = ascii ''Brazil'',
       cat_slug = ascii ''Travel-Brazil''\<rparr>,
      \<lparr>cat_nicename = ascii ''travel-brazil'', cat_name = ascii ''Travel-Brazil'',
       cat_slug = ascii ''Travel-Brazil''\<rparr>]"
  unfolding allCategoriesWithSlug_def shared_path_topLevelCats shared_path_nameToNicename
  unfolding shared_path_eq
  by (simp add: addCategoryWithPath.simps getDirectChildren_def categorySlug_def ascii_def
     slugify_def trim_def isWhiteSpace_def isSlugChar_def isWordChar_def isDigit_def isHyphen_def)

subsection \<open>Descendant names\<close>

lemma looping_eq: "catByNicename looping_categories =
  [(ascii ''news-old'', \<lparr>name = ascii ''News'', parentNicename = Some (ascii ''archive'')\<rparr>),
   (ascii ''archive'', \<lparr>name = ascii ''Archive'', parentNicename = Some (ascii ''news-old'')\<rparr>),
   (ascii ''news'', \<lparr>name = ascii ''News'', parentNicename = None\<rparr>),
   (ascii ''sports'', \<lparr>name = ascii ''Sports'', parentNicename = Some (ascii ''news'')\<rparr>)]"
  by (simp add: catByNicename_def looping_categories_def ascii_def trim_def isWhiteSpace_def
      Let_def)

lemma forEach_opt_total:
  "(\<And>x s. x \<in> set xs \<Longrightarrow> \<exists>y. f x s = Some y) \<Longrightarrow> \<exists>y. forEach_opt f xs s = Some y"
proof (induction xs arbitrary: s)
  case Nil
  show ?case by simp
next
  case (Cons x xs)
  from Cons.prems [of x s] obtain y where "f x s = Some y" by auto
  moreover from Cons.IH [of y] Cons.prems obtain z where "forEach_opt f xs y = Some z" by auto
  ultimately show ?case by simp
qed

lemma forEach_opt_Some:
  "forEach_opt f xs s = Some y \<Longrightarrow> x \<in> set xs \<Longrightarrow> \<exists>s1 s2. f x s1 = Some s2"
proof (induction xs arbitrary: s)
  case Nil
  then show ?case by simp
next
  case (Cons a xs)
  then show ?case by (auto split: Option.bind_splits)
qed

lemma finite_parent_rel: "finite (parent_rel cat)"
proof -
  have "parent_rel cat \<subseteq> (\<lambda>(k, v). (k, the (parentNicename v))) ` set cat"
    by (force simp: parent_rel_def)
  then show ?thesis by (rule finite_subset) simp
qed

lemma parent_rel_list [code]:
  "parent_rel cat =
     set (concat (map (\<lambda>(k, v). case parentNicename v of None \<Rightarrow> [] | Some p \<Rightarrow> [(k, p)]) cat))"
  by (auto simp: parent_rel_def split: option.splits)

text \<open>
  A set of nodes in which every node is present and has a child in the set: a call of the
  closure on a node of the set needs a call on another node of the set to return first,
  so none returns.
\<close>

lemma add_trapped:
  assumes ret: "add cat n names = Some y"
    and trap: "\<And>m. m \<in> C \<Longrightarrow> map_of cat m \<noteq> None \<and> (\<exists>c \<in> set (child_nicenames cat m). c \<in> C)"
  shows "n \<notin> C"
proof -
  have "cat' = cat \<longrightarrow> n \<notin> C" if "add cat' n names = Some y" for cat'
  proof (rule add.raw_induct
      [where P = "\<lambda>cat' n names y. cat' = cat \<longrightarrow> n \<notin> C", OF _ that], intro impI)
    fix add' :: "category_map \<Rightarrow> jsstring \<Rightarrow> jsstring list \<Rightarrow> jsstring list option"
      and cat' n names y
    assume IH: "\<And>cat' n names y. add' cat' n names = Some y \<Longrightarrow> cat' = cat \<longrightarrow> n \<notin> C"
      and body: "(case map_of cat' n of None \<Rightarrow> Some names
         | Some info \<Rightarrow>
             forEach_opt (add' cat') (child_nicenames cat' n) (set_add names (name info)))
         = Some y"
      and cat: "cat' = cat"
    show "n \<notin> C"
    proof
      assume "n \<in> C"
      from trap [OF this] obtain info c where
        info: "map_of cat n = Some info" and c: "c \<in> set (child_nicenames cat n)" "c \<in> C"
        by auto
      from body cat info have
        "forEach_opt (add' cat) (child_nicenames cat n) (set_add names (name info)) = Some y"
        by simp
      from forEach_opt_Some [OF this c(1)] obtain s1 s2 where "add' cat c s1 = Some s2"
        by auto
      with IH c(2) show False by blast
    qed
  qed
  with ret show ?thesis by blast
qed

lemma looping_trap:
  "add (catByNicename looping_categories) n names = Some y \<Longrightarrow>
   n \<notin> {ascii ''news-old'', ascii ''archive''}"
  by (erule add_trapped) (auto simp: looping_eq child_nicenames_def ascii_def)

lemma getDescendantNames_looping:
  "getDescendantNames (catByNicename looping_categories) (ascii ''news-old'') = None"
proof (cases "getDescendantNames (catByNicename looping_categories) (ascii ''news-old'')")
  case (Some y)
  then show ?thesis using looping_trap [of "ascii ''news-old''" "[]" y]
    by (simp add: getDescendantNames_def)
qed simp

text \<open>
  C6, as the specification states it, fails: there is no visited-set guard. On the two
  categories that are each other's parent the traversal from \<open>news-old\<close> never returns,
  and the import run starts it there, because \<open>news-old\<close> is the first entry with the
  display name of the root \<open>news\<close>.
\<close>

theorem import_run_loops:
  "getDescendantNames (catByNicename looping_categories) (ascii ''news-old'') = None \<and>
   topLevelDescendants (catByNicename looping_categories) = None"
proof -
  have cats: "topLevelCats (catByNicename looping_categories) = [ascii ''News'']"
    by (simp add: looping_eq topLevelCats_def topLevelNicenames_def ascii_def)
  have first: "find (\<lambda>(nicename, v). name v = ascii ''News'') (catByNicename looping_categories) =
      Some (ascii ''news-old'',
        \<lparr>name = ascii ''News'', parentNicename = Some (ascii ''archive'')\<rparr>)"
    by (simp add: looping_eq)
  have ne: "ascii ''news-old'' \<noteq> []"
    by (simp add: ascii_def)
  show ?thesis
    unfolding topLevelDescendants_def cats
    by (simp add: first ne getDescendantNames_looping)
qed

text \<open>
  Where the part of the parent relation at and below the start node has no cycle, the
  recursion follows a well-founded relation and returns.
\<close>

lemma finite_below: "finite (below cat n)"
  unfolding below_def by (rule finite_subset [OF _ finite_parent_rel]) auto

lemma add_total_below:
  assumes "acyclic (below cat n)" and "(m, n) \<in> (parent_rel cat)\<^sup>*"
  shows "\<exists>y. add cat m names = Some y"
proof -
  have "wf (below cat n)"
    using finite_below assms(1) by (rule finite_acyclic_wf)
  then show ?thesis using assms(2)
  proof (induction m arbitrary: names rule: wf_induct_rule)
    case (less m)
    show ?case
    proof (cases "map_of cat m")
      case None
      then show ?thesis by (simp add: add.simps)
    next
      case (Some info)
      have "\<exists>y. add cat child s = Some y" if "child \<in> set (child_nicenames cat m)" for child s
      proof -
        from that have step: "(child, m) \<in> parent_rel cat"
          by (auto simp: child_nicenames_def parent_rel_def)
        with less.prems have "(child, m) \<in> below cat n" and "(child, n) \<in> (parent_rel cat)\<^sup>*"
          by (auto simp: below_def)
        then show ?thesis by (rule less.IH)
      qed
      then have "\<exists>y. forEach_opt (add cat) (child_nicenames cat m)
          (set_add names (name info)) = Some y"
        by (rule forEach_opt_total)
      with Some show ?thesis by (simp add: add.simps [of cat m])
    qed
  qed
qed

lemma getDescendantNames_forest:
  assumes "acyclic (parent_rel cat)"
  shows "\<exists>names. getDescendantNames cat n = Some names"
proof -
  have "below cat n \<subseteq> parent_rel cat" by (auto simp: below_def)
  with assms have "acyclic (below cat n)" by (rule acyclic_subset)
  then show ?thesis
    unfolding getDescendantNames_def by (rule add_total_below) auto
qed

lemma looping_below_news:
  "below (catByNicename looping_categories) (ascii ''news'') = {(ascii ''sports'', ascii ''news'')}"
proof -
  let ?r = "parent_rel (catByNicename looping_categories)"
  have r: "?r = {(ascii ''news-old'', ascii ''archive''), (ascii ''archive'', ascii ''news-old''),
      (ascii ''sports'', ascii ''news'')}"
    by (simp add: parent_rel_list looping_eq)
  have ne: "ascii ''archive'' \<noteq> ascii ''news''" "ascii ''news-old'' \<noteq> ascii ''news''"
    "ascii ''archive'' \<noteq> ascii ''sports''" "ascii ''news-old'' \<noteq> ascii ''sports''"
    "ascii ''news'' \<noteq> ascii ''sports''"
    by (simp_all add: ascii_def)
  have up: "m = ascii ''news'' \<or> m = ascii ''sports''" if "(m, ascii ''news'') \<in> ?r\<^sup>*" for m
    using that
  proof (induction rule: converse_rtrancl_induct)
    case base
    show ?case by simp
  next
    case (step y z)
    from step.hyps(1) step.IH ne show ?case unfolding r by blast
  qed
  show ?thesis
  proof (rule set_eqI, rule iffI)
    fix e assume "e \<in> below (catByNicename looping_categories) (ascii ''news'')"
    then obtain c p where e: "e = (c, p)" and "(c, p) \<in> ?r" and "(p, ascii ''news'') \<in> ?r\<^sup>*"
      by (auto simp: below_def)
    from this(2) up [OF this(3)] ne have "(c, p) = (ascii ''sports'', ascii ''news'')"
      unfolding r by blast
    with e show "e \<in> {(ascii ''sports'', ascii ''news'')}" by simp
  next
    fix e assume "e \<in> {(ascii ''sports'', ascii ''news'')}"
    then show "e \<in> below (catByNicename looping_categories) (ascii ''news'')"
      unfolding below_def r by simp
  qed
qed

text \<open>
  C6, amended. The traversal that computes a node's descendant name set has no
  visited-set guard. It terminates and returns a finite name set whenever the parent
  relation has no cycle at or below the start node, also if the relation contains a cycle
  elsewhere.
\<close>

theorem getDescendantNames_below:
  "acyclic (below cat n) \<Longrightarrow> \<exists>names. getDescendantNames cat n = Some names"
  unfolding getDescendantNames_def by (rule add_total_below) auto

theorem getDescendantNames_below_witness:
  "acyclic (below (catByNicename looping_categories) (ascii ''news'')) \<and>
   getDescendantNames (catByNicename looping_categories) (ascii ''news'') =
     Some [ascii ''News'', ascii ''Sports'']"
proof -
  have "acyclic ({} :: (jsstring \<times> jsstring) set)"
    by (rule wf_acyclic) simp
  then have a: "acyclic (below (catByNicename looping_categories) (ascii ''news''))"
    unfolding looping_below_news by (simp add: acyclic_insert ascii_def)
  from getDescendantNames_below [OF a]
  obtain names where
    "getDescendantNames (catByNicename looping_categories) (ascii ''news'') = Some names"
    by blast
  moreover have "getDescendantNames (catByNicename looping_categories) (ascii ''news'') =
     Some [ascii ''News'', ascii ''Sports'']"
    by (simp add: getDescendantNames_def looping_eq add.simps child_nicenames_def set_add_def
        ascii_def)
  ultimately show ?thesis using a by simp
qed


section \<open>Properties of the legacy identifier resolver\<close>

lemmas char_classes = isWhiteSpace_def isDigit_def isHyphen_def


lemma kiji_segments:
  "filter (\<lambda>s. s \<noteq> []) (split 47 kiji_path) =
     [ascii ''2012'', ascii ''06'', ascii ''17'', [0x8A18, 0x4E8B, 0x540D]]"
  by (simp add: kiji_path_def ascii_def)

lemma kiji_decode: "decodeURIComponent [0x8A18, 0x4E8B, 0x540D] = Some [0x8A18, 0x4E8B, 0x540D]"
  by simp

lemma kiji_slug: "postSlugFromWpPath kiji_path = Some [0x8A18, 0x4E8B, 0x540D]"
  unfolding postSlugFromWpPath_def kiji_segments
  by (simp add: ascii_def kiji_decode replace_char_def trim_def char_classes)


lemma kiji_normalized:
  "normalizeForMatch [0x8A18, 0x4E8B, 0x540D] = [0x8A18, 0x4E8B, 0x540D]"
  "normalizeForMatch [0x8A18, 0x4E8B, 0x540D, 45, 50] = [0x8A18, 0x4E8B, 0x540D, 45, 50]"
  by (simp_all add: normalizeForMatch_def replace_char_def trim_def char_classes)

lemma kiji_via:
  "findStaticSlug_via (Some [0x8A18, 0x4E8B, 0x540D]) kiji_slugs
     = Some (Prefix, [0x8A18, 0x4E8B, 0x540D, 45, 50])"
  unfolding findStaticSlug_via_def kiji_slugs_def
  by (simp add: kiji_normalized first_match_def or_else_def startsWith_def)

text \<open>
  C5, as the specification states it, fails: the path is not resolved by the
  digit-insensitive strategy.
\<close>

theorem kiji_not_digit_insensitive:
  "findStaticSlug_via (postSlugFromWpPath kiji_path) kiji_slugs
     \<noteq> Some (DigitInsensitive, [0x8A18, 0x4E8B, 0x540D, 45, 50])"
  by (simp add: kiji_slug kiji_via)

text \<open>
  C5, amended. For the historical path with the segments 2012, 06, 17 and the three
  ideographs, the third segment is taken as a day and the candidate slug is the fourth
  segment; against the canonical identifier set that holds only the ideographs followed by
  \<open>-2\<close> the resolver resolves the path to that identifier, by the prefix match on the
  script-normalized forms, the third strategy of the cascade.
\<close>

theorem kiji_resolves_by_prefix:
  "postSlugFromWpPath kiji_path = Some [0x8A18, 0x4E8B, 0x540D] \<and>
   findStaticSlug_via (postSlugFromWpPath kiji_path) kiji_slugs
     = Some (Prefix, [0x8A18, 0x4E8B, 0x540D, 45, 50]) \<and>
   findStaticSlug (postSlugFromWpPath kiji_path) kiji_slugs
     = Some [0x8A18, 0x4E8B, 0x540D, 45, 50]"
  by (simp add: kiji_slug kiji_via findStaticSlug_def)

theorem kiji_resolves_by_prefix_witness:
  "findStaticSlug (postSlugFromWpPath kiji_path) kiji_slugs \<noteq> None \<and>
   map_option fst (findStaticSlug_via (postSlugFromWpPath kiji_path) kiji_slugs) = Some Prefix"
proof -
  have via: "findStaticSlug_via (postSlugFromWpPath kiji_path) kiji_slugs
      = Some (Prefix, [0x8A18, 0x4E8B, 0x540D, 45, 50])"
    and res: "findStaticSlug (postSlugFromWpPath kiji_path) kiji_slugs
      = Some [0x8A18, 0x4E8B, 0x540D, 45, 50]"
    using kiji_resolves_by_prefix by blast+
  show ?thesis unfolding via res by simp
qed

lemma first_match_mem: "first_match tag P S = Some (t, s) \<Longrightarrow> s \<in> set S"
  by (auto simp: first_match_def find_Some_iff)

lemma or_else_Some: "or_else a b = Some x \<Longrightarrow> a = Some x \<or> b = Some x"
  by (auto simp: or_else_def split: option.splits)

lemma findStaticSlug_via_mem:
  assumes "findStaticSlug_via w S = Some (t, s)"
  shows "s \<in> set S"
proof (cases w)
  case None
  with assms show ?thesis by (simp add: findStaticSlug_via_def)
next
  case (Some wpSlug)
  show ?thesis
  proof (cases "wpSlug = [] \<or> wpSlug \<in> set S")
    case True
    with assms Some show ?thesis
      by (auto simp: findStaticSlug_via_def split: if_splits)
  next
    case False
    with assms Some show ?thesis
      unfolding findStaticSlug_via_def Let_def
      by (auto dest!: or_else_Some dest: first_match_mem split: if_splits)
  qed
qed

lemma in_set_updateD:
  "(a, b) \<in> set (AList.update k v al) \<Longrightarrow> (a, b) = (k, v) \<or> (a, b) \<in> set al"
  by (induction al) (auto split: if_splits)

lemma foldl_invariant:
  assumes "P init" and "\<And>acc x. P acc \<Longrightarrow> P (f acc x)"
  shows "P (foldl f init xs)"
  using assms(1) by (induction xs arbitrary: init) (auto intro: assms(2))

text \<open>
  C10. For every candidate slug \<open>w\<close> and every set \<open>S\<close> of canonical identifiers,
  \<open>findStaticSlug w S\<close> is null or an element of \<open>S\<close>; and every entry of the mapping that
  \<open>buildUrlToRelative\<close> emits targets \<open>posts/slug.html\<close> for a slug of \<open>S\<close>.
\<close>

theorem findStaticSlug_in_set:
  "(findStaticSlug w S = None \<or> (\<exists>s \<in> set S. findStaticSlug w S = Some s)) \<and>
   (\<forall>(url, target) \<in> set (fst (buildUrlToRelative m S)).
      \<exists>slug \<in> set S. target = ascii ''posts/'' @ slug @ ascii ''.html'')"
proof
  show "findStaticSlug w S = None \<or> (\<exists>s \<in> set S. findStaticSlug w S = Some s)"
    by (cases "findStaticSlug_via w S")
       (auto simp: findStaticSlug_def dest: findStaticSlug_via_mem)
next
  let ?ok = "\<lambda>acc :: (jsstring \<times> jsstring) list \<times> unmapped_entry list.
    \<forall>(url, target) \<in> set (fst acc).
      \<exists>slug \<in> set S. target = ascii ''posts/'' @ slug @ ascii ''.html''"
  have mem: "s \<in> set S" if "findStaticSlug w S = Some s" for w s
    using that by (cases "findStaticSlug_via w S")
      (auto simp: findStaticSlug_def dest: findStaticSlug_via_mem)
  show "?ok (buildUrlToRelative m S)"
    unfolding buildUrlToRelative_def
  proof (rule foldl_invariant)
    show "?ok ([], [])" by simp
  next
    fix acc :: "(jsstring \<times> jsstring) list \<times> unmapped_entry list" and x :: "jsstring \<times> jsstring"
    assume "?ok acc"
    then show "?ok ((\<lambda>(urlToRelative, unmapped) (url, wpPath).
        let wpSlug = postSlugFromWpPath wpPath in
        (case findStaticSlug wpSlug S of
           Some s \<Rightarrow>
             if s \<noteq> []
             then (AList.update url (ascii ''posts/'' @ s @ ascii ''.html'') urlToRelative,
                   unmapped)
             else (urlToRelative,
                   unmapped @ [\<lparr>um_url = url, um_wpPath = wpPath, um_wpSlug = wpSlug\<rparr>])
         | None \<Rightarrow>
             (urlToRelative,
              unmapped @ [\<lparr>um_url = url, um_wpPath = wpPath, um_wpSlug = wpSlug\<rparr>]))) acc x)"
      by (cases acc; cases x)
         (auto simp: Let_def split: option.splits dest!: in_set_updateD dest: mem)
  qed
qed


lemma sample_post_slug:
  "postSlugFromWpPath (ascii ''2013/06/sample-post'') = Some (ascii ''sample-post'')"
proof -
  have "filter (\<lambda>s. s \<noteq> []) (split 47 (ascii ''2013/06/sample-post'')) =
      [ascii ''2013'', ascii ''06'', ascii ''sample-post'']"
    by (simp add: ascii_def)
  moreover have "decodeURIComponent (ascii ''sample-post'') = Some (ascii ''sample-post'')"
    by (simp add: ascii_def)
  ultimately show ?thesis
    unfolding postSlugFromWpPath_def
    by (simp add: ascii_def replace_char_def trim_def char_classes)
qed

lemma gone_slug: "postSlugFromWpPath (ascii ''2013/06/gone'') = Some (ascii ''gone'')"
proof -
  have "filter (\<lambda>s. s \<noteq> []) (split 47 (ascii ''2013/06/gone'')) =
      [ascii ''2013'', ascii ''06'', ascii ''gone'']"
    by (simp add: ascii_def)
  moreover have "decodeURIComponent (ascii ''gone'') = Some (ascii ''gone'')"
    by (simp add: ascii_def)
  ultimately show ?thesis
    unfolding postSlugFromWpPath_def
    by (simp add: ascii_def replace_char_def trim_def char_classes)
qed

lemma sample_post_found:
  "findStaticSlug (Some (ascii ''sample-post'')) [ascii ''sample-post''] =
     Some (ascii ''sample-post'')"
  by (simp add: findStaticSlug_def findStaticSlug_via_def ascii_def)

lemma gone_not_found: "findStaticSlug (Some (ascii ''gone'')) [ascii ''sample-post''] = None"
proof -
  have "normalizeForMatch (ascii ''gone'') = ascii ''gone''"
    "normalizeForMatch (ascii ''sample-post'') = ascii ''sample-post''"
    by (simp_all add: normalizeForMatch_def ascii_def replace_char_def trim_def char_classes)
  then show ?thesis
    unfolding findStaticSlug_def findStaticSlug_via_def
    by (simp add: ascii_def first_match_def or_else_def startsWith_def char_classes)
qed

theorem findStaticSlug_in_set_witness:
  "findStaticSlug (Some (ascii ''sample-post'')) [ascii ''sample-post''] =
     Some (ascii ''sample-post'') \<and>
   fst (buildUrlToRelative sample_urls [ascii ''sample-post'']) =
     [(ascii ''http://futarigurashi.com/2013/06/sample-post'',
       ascii ''posts/sample-post.html'')]"
proof -
  have "fst (buildUrlToRelative sample_urls [ascii ''sample-post'']) =
     [(ascii ''http://futarigurashi.com/2013/06/sample-post'',
       ascii ''posts/sample-post.html'')]"
    unfolding buildUrlToRelative_def sample_urls_def
    by (simp add: sample_post_slug gone_slug sample_post_found gone_not_found)
       (simp add: ascii_def)
  then show ?thesis
    using findStaticSlug_in_set [of "Some (ascii ''sample-post'')" "[ascii ''sample-post'']"
        sample_urls] sample_post_found
    by simp
qed


section \<open>Properties of the post reconciler\<close>

lemma foldl_skip:
  assumes "\<And>acc x. \<not> P x \<Longrightarrow> f acc x = acc"
  shows "foldl f acc (filter P xs) = foldl f acc xs"
  by (induction xs arbitrary: acc) (auto simp: assms)

lemma merge_document_draft: "isDraft (meta d) \<Longrightarrow> merge_document env now m d = m"
  by (simp add: merge_document_def)

lemma set_insert_by: "set (insert_by c x ys) = insert x (set ys)"
  by (induction ys) auto

lemma set_sort_by: "set (sort_by c xs) = set xs"
  unfolding sort_by_def by (induction xs) (auto simp: set_insert_by)

lemma keyed_update: "keyed_by_slug m \<Longrightarrow> slug p = k \<Longrightarrow> keyed_by_slug (AList.update k p m)"
  unfolding keyed_by_slug_def by (auto dest!: in_set_updateD)

lemma keys_update: "fst ` set (AList.update k v al) = insert k (fst ` set al)"
  by (induction al) auto

lemma persisted_map:
  "keyed_by_slug (foldl (\<lambda>m p. AList.update (slug p) p m) m0 ps) \<and>
   fst ` set (foldl (\<lambda>m p. AList.update (slug p) p m) m0 ps) = fst ` set m0 \<union> slug ` set ps"
  if "keyed_by_slug m0"
  using that
proof (induction ps arbitrary: m0)
  case Nil
  then show ?case by simp
next
  case (Cons p ps)
  have "keyed_by_slug (AList.update (slug p) p m0)"
    using Cons.prems by (simp add: keyed_update)
  from Cons.IH [OF this] show ?case by (auto simp: keys_update)
qed

lemma merge_document_keyed: "keyed_by_slug m \<Longrightarrow> keyed_by_slug (merge_document env now m d)"
  by (simp add: merge_document_def Let_def keyed_update)

lemma merge_document_keys:
  "fst ` set (merge_document env now m d) =
     fst ` set m \<union> (if isDraft (meta d) then {} else {file_slug d})"
  by (simp add: merge_document_def Let_def keys_update)

lemma merged_map:
  "keyed_by_slug (foldl (merge_document env now) m0 ds) \<and>
   fst ` set (foldl (merge_document env now) m0 ds) =
     fst ` set m0 \<union> file_slug ` {d \<in> set ds. \<not> isDraft (meta d)}"
  if "keyed_by_slug m0"
  using that
proof (induction ds arbitrary: m0)
  case Nil
  then show ?case by simp
next
  case (Cons d ds)
  have "keyed_by_slug (merge_document env now m0 d)"
    using Cons.prems by (rule merge_document_keyed)
  from Cons.IH [OF this] show ?case by (auto simp: merge_document_keys)
qed

lemma keyed_slugs: "keyed_by_slug m \<Longrightarrow> slug ` snd ` set m = fst ` set m"
  unfolding keyed_by_slug_def by force

lemma reconcile_slugs:
  "slug ` set (reconcile env now P ds) =
     slug ` set P \<union> file_slug ` {d \<in> set (md_files ds). \<not> isDraft (meta d)}"
proof -
  have k0: "keyed_by_slug []" by (simp add: keyed_by_slug_def)
  let ?m = "foldl (\<lambda>m p. AList.update (slug p) p m) [] P"
  from persisted_map [OF k0, of P] have k1: "keyed_by_slug ?m" and s1: "fst ` set ?m = slug ` set P"
    by auto
  from merged_map [OF k1, of env now "md_files ds"] s1 show ?thesis
    by (simp add: reconcile_def Let_def set_sort_by keyed_slugs)
qed

lemma reconcile_without_drafts:
  "reconcile env now P (filter (\<lambda>d. \<not> isDraft (meta d)) ds) = reconcile env now P ds"
proof -
  have skip: "foldl (merge_document env now) m (filter (\<lambda>d. \<not> isDraft (meta d)) xs) =
      foldl (merge_document env now) m xs" for m xs
    by (rule foldl_skip) (simp add: merge_document_draft)
  have "md_files (filter (\<lambda>d. \<not> isDraft (meta d)) ds) =
      filter (\<lambda>d. \<not> isDraft (meta d)) (md_files ds)"
    by (induction ds) (auto simp: md_files_def)
  then show ?thesis
    unfolding reconcile_def Let_def by (simp only: skip)
qed


text \<open>
  C1, as the specification states it, fails: the persisted list holds a non-draft entry
  \<open>hello\<close>, the fresh document \<open>hello.md\<close> is a draft, and the entry \<open>hello\<close> is in the new
  canonical list.
\<close>

theorem draft_kept_counterexample:
  "isDraft (meta hello_draft) \<and>
   file_slug hello_draft \<in> slug ` set (reconcile sample_dates 1577923200000 [hello_post] [hello_draft]) \<and>
   reconcile sample_dates 1577923200000 [hello_post] [hello_draft] = [hello_post]"
  by (simp add: reconcile_def merge_document_def isDraft_def hello_draft_def hello_post_def
      file_slug_def md_files_def endsWith_def sort_by_def ascii_def)

text \<open>
  C1, amended. For every run of the reconciler, a fresh document whose draft flag is true
  never contributes a record: the new canonical list is the one obtained without the draft
  documents. An entry with the draft's identifier appears in the new list exactly when the
  previously-persisted list has an entry with that identifier or a fresh document that is
  not a draft has it.
\<close>

theorem draft_contributes_nothing:
  "isDraft (meta d) \<Longrightarrow> d \<in> set ds \<Longrightarrow>
   reconcile env now P ds = reconcile env now P (filter (\<lambda>d. \<not> isDraft (meta d)) ds) \<and>
   (file_slug d \<in> slug ` set (reconcile env now P ds) \<longleftrightarrow>
      file_slug d \<in> slug ` set P \<or>
      (\<exists>d' \<in> set (md_files ds). \<not> isDraft (meta d') \<and> file_slug d' = file_slug d))"
proof -
  have "file_slug d \<in> file_slug ` {d \<in> set (md_files ds). \<not> isDraft (meta d)} \<longleftrightarrow>
      (\<exists>d' \<in> set (md_files ds). \<not> isDraft (meta d') \<and> file_slug d' = file_slug d)"
    by (auto simp: image_iff)
  then show ?thesis
    by (simp add: reconcile_without_drafts reconcile_slugs)
qed

theorem draft_contributes_nothing_witness:
  "isDraft (meta hello_draft) \<and> hello_draft \<in> set [hello_draft] \<and>
   reconcile sample_dates 1577923200000 [hello_post] [hello_draft] =
     reconcile sample_dates 1577923200000 [hello_post] [] \<and>
   file_slug hello_draft \<in> slug ` set [hello_post]"
proof -
  have d: "isDraft (meta hello_draft)"
    by (simp add: isDraft_def hello_draft_def)
  have "file_slug hello_draft \<in> slug ` set [hello_post]"
    by (simp add: file_slug_def hello_draft_def hello_post_def ascii_def)
  with d draft_contributes_nothing [OF d, of "[hello_draft]" sample_dates 1577923200000 "[hello_post]"]
  show ?thesis by simp
qed

lemma update_map_apsnd:
  "map (apsnd f) (AList.update k v al) = AList.update k (f v) (map (apsnd f) al)"
  by (induction al) auto

lemma merge_document_erase:
  assumes "dated d" and "map (apsnd erase_dateRel) m1 = map (apsnd erase_dateRel) m2"
  shows "map (apsnd erase_dateRel) (merge_document env now1 m1 d) =
         map (apsnd erase_dateRel) (merge_document env now2 m2 d)"
proof (cases "isDraft (meta d)")
  case True
  with assms(2) show ?thesis by (simp add: merge_document_def)
next
  case False
  with assms(1) obtain s where "meta_date (meta d) = Some s" "s \<noteq> []"
    by (auto simp: dated_def)
  with False assms(2) show ?thesis
    by (simp add: merge_document_def Let_def or_default_def update_map_apsnd erase_dateRel_def)
qed

lemma merged_erase:
  assumes "\<forall>d \<in> set ds. dated d"
    and "map (apsnd erase_dateRel) m1 = map (apsnd erase_dateRel) m2"
  shows "map (apsnd erase_dateRel) (foldl (merge_document env now1) m1 ds) =
         map (apsnd erase_dateRel) (foldl (merge_document env now2) m2 ds)"
  using assms
proof (induction ds arbitrary: m1 m2)
  case Nil
  then show ?case by simp
next
  case (Cons d ds)
  from Cons.prems have "map (apsnd erase_dateRel) (merge_document env now1 m1 d) =
      map (apsnd erase_dateRel) (merge_document env now2 m2 d)"
    by (intro merge_document_erase) auto
  with Cons.prems(1) show ?case by (simp add: Cons.IH)
qed

lemma insert_by_map:
  assumes "\<And>a b. c (f a) (f b) = c a b"
  shows "map f (insert_by c x ys) = insert_by c (f x) (map f ys)"
  by (induction ys) (auto simp: assms)

lemma sort_by_map:
  assumes "\<And>a b. c (f a) (f b) = c a b"
  shows "map f (sort_by c xs) = sort_by c (map f xs)"
  unfolding sort_by_def by (induction xs) (auto simp: insert_by_map [of c f, OF assms])

lemma by_date_desc_erase:
  "by_date_desc env (erase_dateRel a) (erase_dateRel b) = by_date_desc env a b"
  by (simp add: by_date_desc_def erase_dateRel_def)

text \<open>
  C7, amended. For the same persisted catalog and the same fresh documents, each a draft
  or carrying a date, any two runs produce canonical lists that agree in order and in
  every field of every record other than the relative date \<open>dateRel\<close>, whatever the two
  clock readings are.
\<close>

theorem runs_agree_up_to_dateRel:
  assumes "\<forall>d \<in> set ds. dated d"
  shows "map erase_dateRel (reconcile env now1 P ds) = map erase_dateRel (reconcile env now2 P ds)"
proof -
  let ?m = "foldl (\<lambda>m p. AList.update (slug p) p m) [] P"
  from assms have "\<forall>d \<in> set (md_files ds). dated d" by (simp add: md_files_def)
  then have "map (apsnd erase_dateRel) (foldl (merge_document env now1) ?m (md_files ds)) =
      map (apsnd erase_dateRel) (foldl (merge_document env now2) ?m (md_files ds))"
    by (rule merged_erase) simp
  then have "map erase_dateRel (map snd (foldl (merge_document env now1) ?m (md_files ds))) =
      map erase_dateRel (map snd (foldl (merge_document env now2) ?m (md_files ds)))"
    by (metis (no_types) map_map snd_comp_apsnd)
  then show ?thesis
    unfolding reconcile_def Let_def
    by (simp only: sort_by_map [of "by_date_desc env" erase_dateRel, OF by_date_desc_erase])
qed

lemma hello_fresh_run:
  "reconcile sample_dates now [] [hello_fresh] =
     [\<lparr>slug = ascii ''hello'', title = ascii ''Hello again'', date = ascii ''2020-01-01'',
       dateRel = formatDateRel sample_dates now (ascii ''2020-01-01''), categories = [],
       excerpt = []\<rparr>]"
  by (simp add: reconcile_def merge_document_def isDraft_def hello_fresh_def
      file_slug_def md_files_def endsWith_def sort_by_def or_default_def formatDateYMD_def sample_dates_def
      ascii_def Let_def)

lemma hello_ages:
  "formatDateRel sample_dates 1577923200000 (ascii ''2020-01-01'') = ascii ''recently''"
  "formatDateRel sample_dates 1612396800000 (ascii ''2020-01-01'') = ascii ''1 year ago''"
  by (simp_all add: formatDateRel_def sample_dates_def ascii_def Number_toString_def
      decimal.simps)

text \<open>
  C7, as the specification states it, fails: the same document, built one day and 400
  days after its date, gives two different canonical lists.
\<close>

theorem runs_differ_counterexample:
  "reconcile sample_dates 1577923200000 [] [hello_fresh] \<noteq>
   reconcile sample_dates 1612396800000 [] [hello_fresh]"
  unfolding hello_fresh_run hello_ages by (simp add: ascii_def)

theorem runs_agree_up_to_dateRel_witness:
  "dated hello_fresh \<and>
   map erase_dateRel (reconcile sample_dates 1577923200000 [] [hello_fresh]) =
   map erase_dateRel (reconcile sample_dates 1612396800000 [] [hello_fresh])"
proof -
  have d: "dated hello_fresh"
    by (simp add: dated_def hello_fresh_def ascii_def)
  then have "\<forall>d \<in> set [hello_fresh]. dated d" by simp
  from d runs_agree_up_to_dateRel [OF this, of sample_dates 1577923200000 "[]" 1612396800000]
  show ?thesis by simp
qed


end
